theory Spec2Isabelle
  imports Complex_Main "HOL-Library.AList" "HOL-Library.Sublist"
begin

section \<open>Python values and strings\<close>

text \<open>
  The values that travel through the client are the JSON documents of the provider and
  whatever a caller stores in the cache: \<^verbatim>\<open>None\<close>, booleans, integers, strings, lists
  and dictionaries (insertion-ordered, as association lists).
\<close>

datatype pyval =
    PNone
  | PBool bool
  | PInt int
  | PStr string
  | PList "pyval list"
  | PDict "(string \<times> pyval) list"

text \<open>Truth-value testing, as \<^verbatim>\<open>if cached_result:\<close> performs it.\<close>

fun truthy :: "pyval \<Rightarrow> bool" where
  "truthy PNone = False"
| "truthy (PBool b) = b"
| "truthy (PInt n) = (n \<noteq> 0)"
| "truthy (PStr s) = (s \<noteq> [])"
| "truthy (PList xs) = (xs \<noteq> [])"
| "truthy (PDict kvs) = (kvs \<noteq> [])"

text \<open>\<^verbatim>\<open>str(n)\<close> for an integer: decimal digits, with a minus sign when negative.\<close>

definition digit_char :: "nat \<Rightarrow> char" where
  "digit_char d = char_of (48 + d)"

function str_nat :: "nat \<Rightarrow> string" where
  "str_nat n = (if n < 10 then [digit_char n] else str_nat (n div 10) @ [digit_char (n mod 10)])"
  by pat_completeness auto
termination
  by (relation "measure (\<lambda>n. n)") auto

definition str_int :: "int \<Rightarrow> string" where
  "str_int i = (if i < 0 then CHR ''-'' # str_nat (nat (- i)) else str_nat (nat i))"

text \<open>An optional parameter inside an f-string: \<^verbatim>\<open>None\<close> prints as \<open>None\<close>.\<close>

definition str_opt :: "string option \<Rightarrow> string" where
  "str_opt x = (case x of None \<Rightarrow> ''None'' | Some s \<Rightarrow> s)"

text \<open>\<^verbatim>\<open>sep.join(xs)\<close>.\<close>

fun str_join :: "string \<Rightarrow> string list \<Rightarrow> string" where
  "str_join sep [] = []"
| "str_join sep [x] = x"
| "str_join sep (x # y # ys) = x @ sep @ str_join sep (y # ys)"

text \<open>\<^verbatim>\<open>s.lower()\<close> on ASCII text, and the substring test \<^verbatim>\<open>needle in s\<close>.\<close>

definition char_lower :: "char \<Rightarrow> char" where
  "char_lower c = (let n = (of_char c :: nat) in if 65 \<le> n \<and> n \<le> 90 then char_of (n + 32) else c)"

definition lower :: "string \<Rightarrow> string" where
  "lower s = map char_lower s"

fun str_contains :: "string \<Rightarrow> string \<Rightarrow> bool" where
  "str_contains needle [] = (needle = [])"
| "str_contains needle (c # cs) = (prefix needle (c # cs) \<or> str_contains needle cs)"

section \<open>Time\<close>

text \<open>
  The source reads the wall clock with \<^verbatim>\<open>time.time()\<close> and \<^verbatim>\<open>datetime.now()\<close>.
  A clock is the sequence of the readings a process obtains: the \<open>k\<close>-th reading is
  \<open>clock k\<close>, in seconds, and every function that reads the clock is given the index of
  the next reading and returns the index after its last one. A reading is the number
  the call returned, as the rational it denotes; \<^verbatim>\<open>asyncio.sleep\<close> changes no field
  of any object and only lets the clock run, which the next reading shows.
\<close>

type_synonym clock = "nat \<Rightarrow> rat"

text \<open>
  \<^verbatim>\<open>time.time()\<close> returns a \<^verbatim>\<open>float\<close>, an IEEE 754 double, and the arithmetic of
  the rate limiter on it is floating-point arithmetic: each operation yields the exact
  result rounded to the nearest number with a 53-bit significand, ties to the even
  significand. \<open>binade x\<close> is the exponent \<open>e\<close> with \<open>2 ^ e \<le> \<bar>x\<bar> < 2 ^ (e + 1)\<close>, found from
  the bit lengths of numerator and denominator. The exponent range is not bounded:
  overflow to infinity and subnormal numbers do not arise for clock readings.
\<close>

function bit_length :: "int \<Rightarrow> int" where
  "bit_length n = (if n \<le> 0 then 0 else 1 + bit_length (n div 2))"
  by pat_completeness auto
termination
  by (relation "measure nat") auto

declare bit_length.simps [simp del]

definition pow2 :: "int \<Rightarrow> rat" where
  "pow2 k = (if 0 \<le> k then 2 ^ nat k else 1 / 2 ^ nat (- k))"

definition binade :: "rat \<Rightarrow> int" where
  "binade x =
     (let (p, q) = quotient_of \<bar>x\<bar>;
          e = bit_length p - bit_length q
      in if pow2 e \<le> \<bar>x\<bar> then e else e - 1)"

definition round_half_even :: "rat \<Rightarrow> int" where
  "round_half_even m =
     (let f = \<lfloor>m\<rfloor>; d = m - of_int f
      in if d < 1 / 2 then f else if d > 1 / 2 then f + 1 else if even f then f else f + 1)"

definition round_double :: "rat \<Rightarrow> rat" where
  "round_double x =
     (if x = 0 then 0
      else let u = pow2 (binade x - 52) in sgn x * of_int (round_half_even (\<bar>x\<bar> / u)) * u)"

text \<open>
  The float operations \<^verbatim>\<open>a - b\<close>, \<^verbatim>\<open>a / b\<close> and \<^verbatim>\<open>a * b\<close>, and the conversion of
  an \<^verbatim>\<open>int\<close> operand to \<^verbatim>\<open>float\<close>.
\<close>

definition float_sub :: "rat \<Rightarrow> rat \<Rightarrow> rat" where
  "float_sub a b = round_double (a - b)"

definition float_div :: "rat \<Rightarrow> rat \<Rightarrow> rat" where
  "float_div a b = round_double (a / b)"

definition float_mul :: "rat \<Rightarrow> rat \<Rightarrow> rat" where
  "float_mul a b = round_double (a * b)"

definition float_of_int :: "int \<Rightarrow> rat" where
  "float_of_int n = round_double (of_int n)"

text \<open>Python's \<^verbatim>\<open>int(x)\<close> on a number truncates towards zero.\<close>

definition py_int :: "rat \<Rightarrow> int" where
  "py_int x = (if 0 \<le> x then \<lfloor>x\<rfloor> else \<lceil>x\<rceil>)"

section \<open>Rate limiter (app/utils/rate\_limiter.py)\<close>

record RateLimitConfig =
  calls_per_minute :: int
  calls_per_hour :: int
  burst_limit :: int

definition default_config :: RateLimitConfig where
  "default_config = \<lparr>calls_per_minute = 100, calls_per_hour = 1000, burst_limit = 10\<rparr>"

record RateLimiter =
  config :: RateLimitConfig
  minute_tokens :: int
  minute_last_refill :: rat
  hour_tokens :: int
  hour_last_refill :: rat
  burst_tokens :: int
  burst_last_refill :: rat
  request_timestamps :: "rat list"

text \<open>\<^verbatim>\<open>RateLimiter.__init__\<close>: three clock readings, every bucket full.\<close>

definition init_rate_limiter :: "clock \<Rightarrow> RateLimitConfig \<Rightarrow> nat \<Rightarrow> RateLimiter \<times> nat" where
  "init_rate_limiter clk cfg t =
     (\<lparr>config = cfg,
       minute_tokens = calls_per_minute cfg, minute_last_refill = clk t,
       hour_tokens = calls_per_hour cfg, hour_last_refill = clk (t + 1),
       burst_tokens = burst_limit cfg, burst_last_refill = clk (t + 2),
       request_timestamps = []\<rparr>, t + 3)"

text \<open>\<^verbatim>\<open>RateLimiter._refill_tokens\<close>, with the one reading it takes as \<open>current_time\<close>.\<close>

definition refill_minute :: "rat \<Rightarrow> RateLimiter \<Rightarrow> RateLimiter" where
  "refill_minute current_time rl =
     (let minute_elapsed = float_sub current_time (minute_last_refill rl) in
      if minute_elapsed \<ge> 60 then
        rl\<lparr>minute_tokens := calls_per_minute (config rl), minute_last_refill := current_time\<rparr>
      else
        let tokens_to_add =
              py_int (float_mul (float_div minute_elapsed 60)
                        (float_of_int (calls_per_minute (config rl))));
            rl' = rl\<lparr>minute_tokens :=
                        min (calls_per_minute (config rl)) (minute_tokens rl + tokens_to_add)\<rparr>
        in if tokens_to_add > 0 then rl'\<lparr>minute_last_refill := current_time\<rparr> else rl')"

definition refill_hour :: "rat \<Rightarrow> RateLimiter \<Rightarrow> RateLimiter" where
  "refill_hour current_time rl =
     (let hour_elapsed = float_sub current_time (hour_last_refill rl) in
      if hour_elapsed \<ge> 3600 then
        rl\<lparr>hour_tokens := calls_per_hour (config rl), hour_last_refill := current_time\<rparr>
      else
        let tokens_to_add =
              py_int (float_mul (float_div hour_elapsed 3600)
                        (float_of_int (calls_per_hour (config rl))));
            rl' = rl\<lparr>hour_tokens :=
                        min (calls_per_hour (config rl)) (hour_tokens rl + tokens_to_add)\<rparr>
        in if tokens_to_add > 0 then rl'\<lparr>hour_last_refill := current_time\<rparr> else rl')"

definition refill_burst :: "rat \<Rightarrow> RateLimiter \<Rightarrow> RateLimiter" where
  "refill_burst current_time rl =
     (let burst_elapsed = float_sub current_time (burst_last_refill rl) in
      if burst_elapsed \<ge> 1 then
        rl\<lparr>burst_tokens := burst_limit (config rl), burst_last_refill := current_time\<rparr>
      else rl)"

definition refill_tokens :: "rat \<Rightarrow> RateLimiter \<Rightarrow> RateLimiter" where
  "refill_tokens current_time rl =
     refill_burst current_time (refill_hour current_time (refill_minute current_time rl))"

text \<open>The admission test shared by \<^verbatim>\<open>acquire\<close> and \<^verbatim>\<open>try_acquire\<close>.\<close>

definition enough_tokens :: "int \<Rightarrow> RateLimiter \<Rightarrow> bool" where
  "enough_tokens tokens rl \<longleftrightarrow>
     minute_tokens rl \<ge> tokens \<and> hour_tokens rl \<ge> tokens \<and> burst_tokens rl \<ge> tokens"

definition consume_tokens :: "int \<Rightarrow> RateLimiter \<Rightarrow> RateLimiter" where
  "consume_tokens tokens rl =
     rl\<lparr>minute_tokens := minute_tokens rl - tokens,
        hour_tokens := hour_tokens rl - tokens,
        burst_tokens := burst_tokens rl - tokens\<rparr>"

text \<open>
  The number of clock readings of the wait-time computation of \<^verbatim>\<open>acquire\<close>: one for
  each bucket that is short (the other branches are \<^verbatim>\<open>float('inf')\<close>).
\<close>

definition wait_readings :: "int \<Rightarrow> RateLimiter \<Rightarrow> nat" where
  "wait_readings tokens rl =
     (if minute_tokens rl < tokens then 1 else 0) +
     (if hour_tokens rl < tokens then 1 else 0) +
     (if burst_tokens rl < tokens then 1 else 0)"

text \<open>
  \<^verbatim>\<open>RateLimiter.acquire\<close>: the \<^verbatim>\<open>while True\<close> loop. A run that never leaves the
  loop has the value \<open>None\<close>. On admission the grant is time-stamped with one reading and
  the log is pruned against a second one.
\<close>

partial_function (option) acquire ::
  "clock \<Rightarrow> int \<Rightarrow> RateLimiter \<Rightarrow> nat \<Rightarrow> (bool \<times> RateLimiter \<times> nat) option" where
  "acquire clk tokens rl t =
     (let rl1 = refill_tokens (clk t) rl in
      if enough_tokens tokens rl1 then
        let rl2 = consume_tokens tokens rl1;
            rl3 = rl2\<lparr>request_timestamps := request_timestamps rl2 @ [clk (t + 1)]\<rparr>;
            cutoff_time = float_sub (clk (t + 2)) 3600;
            rl4 = rl3\<lparr>request_timestamps := filter (\<lambda>ts. ts > cutoff_time) (request_timestamps rl3)\<rparr>
        in Some (True, rl4, t + 3)
      else acquire clk tokens rl1 (t + 1 + wait_readings tokens rl1))"

text \<open>\<^verbatim>\<open>RateLimiter.try_acquire\<close>: one refill, one test, no waiting.\<close>

definition try_acquire :: "clock \<Rightarrow> int \<Rightarrow> RateLimiter \<Rightarrow> nat \<Rightarrow> bool \<times> RateLimiter \<times> nat" where
  "try_acquire clk tokens rl t =
     (let rl1 = refill_tokens (clk t) rl in
      if enough_tokens tokens rl1 then
        let rl2 = consume_tokens tokens rl1
        in (True, rl2\<lparr>request_timestamps := request_timestamps rl2 @ [clk (t + 1)]\<rparr>, t + 2)
      else (False, rl1, t + 1))"

declare acquire.simps [code]

section \<open>Settings (app/core/config.py)\<close>

record Settings =
  youtube_api_quota_limit :: int
  cache_ttl_seconds :: int
  cache_max_size :: int
  enable_caching :: bool

definition default_settings :: Settings where
  "default_settings =
     \<lparr>youtube_api_quota_limit = 10000, cache_ttl_seconds = 3600, cache_max_size = 1000,
      enable_caching = True\<rparr>"

section \<open>Errors\<close>

text \<open>
  The exceptions of the client. \<^verbatim>\<open>QuotaExceededException\<close> is a subclass of
  \<^verbatim>\<open>YouTubeAPIError\<close>, so a handler for the latter catches both.
\<close>

datatype error =
    QuotaExceededException string
  | YouTubeAPIError string
  | IndexError
  | AttributeError
  | TypeError

fun is_YouTubeAPIError :: "error \<Rightarrow> bool" where
  "is_YouTubeAPIError (QuotaExceededException m) = True"
| "is_YouTubeAPIError (YouTubeAPIError m) = True"
| "is_YouTubeAPIError e = False"

text \<open>\<^verbatim>\<open>str(e)\<close>.\<close>

fun str_error :: "error \<Rightarrow> string" where
  "str_error (QuotaExceededException m) = m"
| "str_error (YouTubeAPIError m) = m"
| "str_error IndexError = ''list index out of range''"
| "str_error AttributeError = ''object has no attribute get''"
| "str_error TypeError = ''object is not iterable''"

section \<open>Cache manager (app/utils/cache\_manager.py)\<close>

text \<open>
  \<^verbatim>\<open>redis_client\<close> is \<^verbatim>\<open>None\<close> and \<^verbatim>\<open>connected\<close> is \<^verbatim>\<open>False\<close> from
  \<^verbatim>\<open>__init__\<close> and \<^verbatim>\<open>connect\<close> on and nothing sets them otherwise, so every
  operation goes to the in-process dictionary \<^verbatim>\<open>memory_cache\<close>. The dictionary is an
  association list in insertion order: assignment replaces the value of a present key in
  place and appends an absent one (\<open>AList.update\<close>), \<^verbatim>\<open>del\<close> removes the key
  (\<open>AList.delete\<close>).
\<close>

record CacheEntry =
  cached_value :: pyval
  expires_at :: rat

record CacheManager =
  memory_cache :: "(string \<times> CacheEntry) list"
  memory_cache_max_size :: int
  default_ttl :: int

definition init_cache_manager :: "Settings \<Rightarrow> CacheManager" where
  "init_cache_manager st =
     \<lparr>memory_cache = [], memory_cache_max_size = cache_max_size st,
      default_ttl = cache_ttl_seconds st\<rparr>"

text \<open>
  \<^verbatim>\<open>CacheManager._generate_cache_key\<close>; \<open>md5\<close> stands for
  \<^verbatim>\<open>hashlib.md5(key.encode()).hexdigest()\<close>.
\<close>

definition generate_cache_key :: "(string \<Rightarrow> string) \<Rightarrow> string \<Rightarrow> string \<Rightarrow> string" where
  "generate_cache_key md5 key key_prefix =
     (let key' = (if length key > 200 then md5 key else key) in key_prefix @ '':'' @ key')"

text \<open>
  \<^verbatim>\<open>CacheManager.get\<close>. The clock is read only when the key is present; an expired
  entry is removed and the default returned.
\<close>

definition cache_get ::
  "Settings \<Rightarrow> (string \<Rightarrow> string) \<Rightarrow> clock \<Rightarrow> string \<Rightarrow> pyval \<Rightarrow> CacheManager \<Rightarrow> nat
     \<Rightarrow> pyval \<times> CacheManager \<times> nat" where
  "cache_get st md5 clk key dflt cm t =
     (if \<not> enable_caching st then (dflt, cm, t)
      else
        let cache_key = generate_cache_key md5 key ''ytce'' in
        case map_of (memory_cache cm) cache_key of
          Some entry \<Rightarrow>
            if expires_at entry > clk t then (cached_value entry, cm, t + 1)
            else (dflt, cm\<lparr>memory_cache := AList.delete cache_key (memory_cache cm)\<rparr>, t + 1)
        | None \<Rightarrow> (dflt, cm, t))"

text \<open>
  The eviction loop of \<^verbatim>\<open>_cleanup_memory_cache\<close>:
  \<^verbatim>\<open>for i in range(items_to_remove): del self.memory_cache[sorted_items[i][0]]\<close>.
  The first argument is what is left of \<^verbatim>\<open>sorted_items\<close> from index \<open>i\<close> on, the
  second the number of iterations still to run; indexing past the end of the list raises
  \<^verbatim>\<open>IndexError\<close>, with the deletions made so far in place.
\<close>

fun evict :: "(string \<times> CacheEntry) list \<Rightarrow> nat \<Rightarrow> (string \<times> CacheEntry) list
    \<Rightarrow> error option \<times> (string \<times> CacheEntry) list" where
  "evict sorted_items 0 mc = (None, mc)"
| "evict [] (Suc n) mc = (Some IndexError, mc)"
| "evict (item # sorted_items) (Suc n) mc = evict sorted_items n (AList.delete (fst item) mc)"

text \<open>
  \<^verbatim>\<open>CacheManager._cleanup_memory_cache\<close>, with its clock reading as \<open>now\<close>.
  \<^verbatim>\<open>sorted\<close> is stable, as \<open>sort_key\<close> is.
\<close>

definition cleanup_memory_cache :: "rat \<Rightarrow> CacheManager \<Rightarrow> error option \<times> CacheManager" where
  "cleanup_memory_cache now cm =
     (let mc = filter (\<lambda>(key, entry). \<not> expires_at entry \<le> now) (memory_cache cm) in
      if int (length mc) \<ge> memory_cache_max_size cm then
        let sorted_items = sort_key (\<lambda>x. expires_at (snd x)) mc;
            items_to_remove = int (length sorted_items) - memory_cache_max_size cm + 1;
            (err, mc') = evict sorted_items (nat items_to_remove) mc
        in (err, cm\<lparr>memory_cache := mc'\<rparr>)
      else (None, cm\<lparr>memory_cache := mc\<rparr>))"

text \<open>
  \<^verbatim>\<open>CacheManager.set\<close>. \<^verbatim>\<open>ttl or self.default_ttl\<close> takes the default for
  \<^verbatim>\<open>None\<close> and for \<open>0\<close>. One clock reading in the clean-up, one for the expiry.
\<close>

definition cache_set ::
  "Settings \<Rightarrow> (string \<Rightarrow> string) \<Rightarrow> clock \<Rightarrow> string \<Rightarrow> pyval \<Rightarrow> int option \<Rightarrow> CacheManager \<Rightarrow> nat
     \<Rightarrow> (error + bool) \<times> CacheManager \<times> nat" where
  "cache_set st md5 clk key v ttl cm t =
     (if \<not> enable_caching st then (Inr False, cm, t)
      else
        let cache_key = generate_cache_key md5 key ''ytce'';
            ttl' = (case ttl of None \<Rightarrow> default_ttl cm
                    | Some n \<Rightarrow> if n \<noteq> 0 then n else default_ttl cm)
        in case cleanup_memory_cache (clk t) cm of
             (Some e, cm1) \<Rightarrow> (Inl e, cm1, t + 1)
           | (None, cm1) \<Rightarrow>
               (Inr True,
                cm1\<lparr>memory_cache :=
                      AList.update cache_key
                        \<lparr>cached_value = v, expires_at = clk (t + 1) + of_int ttl'\<rparr>
                        (memory_cache cm1)\<rparr>,
                t + 2))"

section \<open>The API client (app/services/youtube\_api.py)\<close>

text \<open>
  The requests the client builds with the provider's SDK, and what
  \<^verbatim>\<open>request_func.execute()\<close> does with one: it returns the provider's document, raises
  \<^verbatim>\<open>HttpError\<close> with a status and the decoded content (empty when there is none), or
  raises something else.
\<close>

datatype request =
    VideosList string string
  | CommentThreadsList string string int string string
  | CaptionsList string string

datatype outcome =
    Ok pyval
  | HttpError int string
  | OtherException string

text \<open>
  What a process is given from outside: its settings, the clock, the provider (the
  outcome of the \<open>k\<close>-th executed request), the interpreter's string hash
  \<^verbatim>\<open>hash()\<close>, which CPython seeds per process, and MD5.
\<close>

record env =
  settings :: Settings
  clock :: clock
  upstream :: "nat \<Rightarrow> request \<Rightarrow> outcome"
  py_hash :: "string \<Rightarrow> int"
  md5_hexdigest :: "string \<Rightarrow> string"

text \<open>
  The client object, with three counters that observe a run: the clock readings taken
  (\<open>clock_reads\<close>), the requests executed at the provider (\<open>executed\<close>) and the
  calls of \<^verbatim>\<open>_make_request\<close> (\<open>orchestrated\<close>).
\<close>

record YouTubeAPIWrapper =
  quota_limit :: int
  quota_used :: int
  quota_reset_time :: rat
  rate_limiter :: RateLimiter
  cache_manager :: CacheManager
  clock_reads :: nat
  executed :: nat
  orchestrated :: nat

text \<open>\<^verbatim>\<open>timedelta(days=1)\<close>, in seconds.\<close>

definition one_day :: rat where
  "one_day = 86400"

text \<open>\<^verbatim>\<open>YouTubeAPIWrapper.__init__\<close>, started at reading \<open>t\<close>.\<close>

definition init_wrapper :: "env \<Rightarrow> nat \<Rightarrow> YouTubeAPIWrapper" where
  "init_wrapper e t =
     (let (rl, t1) = init_rate_limiter (clock e) default_config t in
      \<lparr>quota_limit = youtube_api_quota_limit (settings e),
       quota_used = 0,
       quota_reset_time = clock e t1 + one_day,
       rate_limiter = rl,
       cache_manager = init_cache_manager (settings e),
       clock_reads = t1 + 1,
       executed = 0,
       orchestrated = 0\<rparr>)"

text \<open>\<^verbatim>\<open>self.operation_costs\<close> and \<^verbatim>\<open>self.operation_costs.get(operation, 1)\<close>.\<close>

definition operation_costs :: "(string \<times> int) list" where
  "operation_costs =
     [(''search'', 100), (''videos'', 1), (''channels'', 1), (''comments'', 1), (''captions'', 200)]"

definition operation_cost :: "string \<Rightarrow> int" where
  "operation_cost operation = (case map_of operation_costs operation of None \<Rightarrow> 1 | Some c \<Rightarrow> c)"

text \<open>
  \<^verbatim>\<open>YouTubeAPIWrapper._check_quota\<close>: one clock reading for the comparison, a second
  one for the new deadline when the window is reset.
\<close>

definition check_quota :: "env \<Rightarrow> string \<Rightarrow> YouTubeAPIWrapper \<Rightarrow> (error + bool) \<times> YouTubeAPIWrapper" where
  "check_quota e operation s =
     (let cost = operation_cost operation;
          now = clock e (clock_reads s);
          s1 = s\<lparr>clock_reads := clock_reads s + 1\<rparr>;
          s2 = (if now > quota_reset_time s1 then
                  s1\<lparr>quota_used := 0,
                     quota_reset_time := clock e (clock_reads s1) + one_day,
                     clock_reads := clock_reads s1 + 1\<rparr>
                else s1)
      in if quota_used s2 + cost > quota_limit s2 then
           (Inl (QuotaExceededException ''Daily quota limit exceeded''), s2)
         else (Inr True, s2))"

text \<open>\<^verbatim>\<open>YouTubeAPIWrapper._update_quota\<close>.\<close>

definition update_quota :: "string \<Rightarrow> YouTubeAPIWrapper \<Rightarrow> YouTubeAPIWrapper" where
  "update_quota operation s = s\<lparr>quota_used := quota_used s + operation_cost operation\<rparr>"

text \<open>
  The \<^verbatim>\<open>except HttpError\<close> handler of \<^verbatim>\<open>_make_request\<close>: the error raised for a
  status and content.
\<close>

definition classify_http_error :: "int \<Rightarrow> string \<Rightarrow> error" where
  "classify_http_error status content =
     (let error_content = (if content \<noteq> [] then content else ''No error content'') in
      if status = 403 then
        if str_contains ''quota'' (lower error_content) then
          QuotaExceededException ''API quota exceeded''
        else YouTubeAPIError (''API access forbidden: '' @ error_content)
      else if status = 400 then YouTubeAPIError (''Bad request: '' @ error_content)
      else if status = 404 then YouTubeAPIError (''Resource not found: '' @ error_content)
      else YouTubeAPIError (''API error '' @ str_int status @ '': '' @ error_content))"

text \<open>
  The cache lookup that opens \<^verbatim>\<open>_make_request\<close>: the cached value when the key is
  truthy, caching is enabled and the value found is truthy; otherwise nothing.
\<close>

definition cache_key_truthy :: "string option \<Rightarrow> bool" where
  "cache_key_truthy cache_key = (case cache_key of None \<Rightarrow> False | Some k \<Rightarrow> k \<noteq> [])"

definition lookup_cached :: "env \<Rightarrow> string option \<Rightarrow> YouTubeAPIWrapper \<Rightarrow> pyval option \<times> YouTubeAPIWrapper" where
  "lookup_cached e cache_key s =
     (if cache_key_truthy cache_key \<and> enable_caching (settings e) then
        let (cached_result, cm, t) =
              cache_get (settings e) (md5_hexdigest e) (clock e) (the cache_key) PNone
                (cache_manager s) (clock_reads s);
            s1 = s\<lparr>cache_manager := cm, clock_reads := t\<rparr>
        in if truthy cached_result then (Some cached_result, s1) else (None, s1)
      else (None, s))"

text \<open>
  The \<^verbatim>\<open>try\<close> block of \<^verbatim>\<open>_make_request\<close> with its handlers: execute the request,
  update the quota, store the result. Whatever is raised inside the block other than
  \<^verbatim>\<open>HttpError\<close> comes out as \<^verbatim>\<open>YouTubeAPIError("Unexpected error: ...")\<close>.
\<close>

definition execute_request ::
  "env \<Rightarrow> request \<Rightarrow> string \<Rightarrow> string option \<Rightarrow> YouTubeAPIWrapper \<Rightarrow> (error + pyval) \<times> YouTubeAPIWrapper" where
  "execute_request e request_func operation cache_key s =
     (let s1 = s\<lparr>executed := executed s + 1\<rparr> in
      case upstream e (executed s) request_func of
        Ok result \<Rightarrow>
          let s2 = update_quota operation s1 in
          if cache_key_truthy cache_key \<and> enable_caching (settings e) then
            (case cache_set (settings e) (md5_hexdigest e) (clock e) (the cache_key) result
                    (Some (cache_ttl_seconds (settings e))) (cache_manager s2) (clock_reads s2) of
               (Inl err, cm, t) \<Rightarrow>
                 (Inl (YouTubeAPIError (''Unexpected error: '' @ str_error err)),
                  s2\<lparr>cache_manager := cm, clock_reads := t\<rparr>)
             | (Inr _, cm, t) \<Rightarrow> (Inr result, s2\<lparr>cache_manager := cm, clock_reads := t\<rparr>))
          else (Inr result, s2)
      | HttpError status content \<Rightarrow> (Inl (classify_http_error status content), s1)
      | OtherException msg \<Rightarrow> (Inl (YouTubeAPIError (''Unexpected error: '' @ msg)), s1))"

text \<open>
  \<^verbatim>\<open>YouTubeAPIWrapper._make_request\<close> after the cache lookup: quota check, rate
  limiter, request. The value is \<open>None\<close> when \<^verbatim>\<open>rate_limiter.acquire()\<close> never
  returns.
\<close>

definition request_pipeline ::
  "env \<Rightarrow> request \<Rightarrow> string \<Rightarrow> string option \<Rightarrow> YouTubeAPIWrapper
     \<Rightarrow> ((error + pyval) \<times> YouTubeAPIWrapper) option" where
  "request_pipeline e request_func operation cache_key s =
     (case check_quota e operation s of
        (Inl err, s2) \<Rightarrow> Some (Inl err, s2)
      | (Inr _, s2) \<Rightarrow>
          (case acquire (clock e) 1 (rate_limiter s2) (clock_reads s2) of
             None \<Rightarrow> None
           | Some (_, rl, t) \<Rightarrow>
               Some (execute_request e request_func operation cache_key
                       (s2\<lparr>rate_limiter := rl, clock_reads := t\<rparr>))))"

text \<open>
  \<^verbatim>\<open>YouTubeAPIWrapper._make_request\<close>: a truthy cached value is returned at once,
  anything else goes through the pipeline. Each call is counted in \<open>orchestrated\<close>.
\<close>

definition make_request ::
  "env \<Rightarrow> request \<Rightarrow> string \<Rightarrow> string option \<Rightarrow> YouTubeAPIWrapper
     \<Rightarrow> ((error + pyval) \<times> YouTubeAPIWrapper) option" where
  "make_request e request_func operation cache_key s =
     (case lookup_cached e cache_key (s\<lparr>orchestrated := orchestrated s + 1\<rparr>) of
        (Some cached_result, s1) \<Rightarrow> Some (Inr cached_result, s1)
      | (None, s1) \<Rightarrow> request_pipeline e request_func operation cache_key s1)"

text \<open>The empty result \<^verbatim>\<open>{'items': []}\<close>.\<close>

definition empty_items :: pyval where
  "empty_items = PDict [(''items'', PList [])]"

text \<open>\<^verbatim>\<open>YouTubeAPIWrapper.get_video_details\<close>.\<close>

definition get_video_details ::
  "env \<Rightarrow> string list \<Rightarrow> YouTubeAPIWrapper \<Rightarrow> ((error + pyval) \<times> YouTubeAPIWrapper) option" where
  "get_video_details e video_ids s =
     (if video_ids = [] then Some (Inr empty_items, s)
      else
        let video_ids_str = str_join '','' (take 50 video_ids);
            cache_key = ''video_details:'' @ str_int (py_hash e video_ids_str);
            request = VideosList ''id,snippet,statistics,contentDetails,status'' video_ids_str
        in make_request e request ''videos'' (Some cache_key) s)"

text \<open>\<^verbatim>\<open>YouTubeAPIWrapper.get_video_comments\<close>.\<close>

definition get_video_comments ::
  "env \<Rightarrow> string \<Rightarrow> int \<Rightarrow> string \<Rightarrow> YouTubeAPIWrapper
     \<Rightarrow> ((error + pyval) \<times> YouTubeAPIWrapper) option" where
  "get_video_comments e video_id max_results order s =
     (let cache_key = ''comments:'' @ video_id @ '':'' @ str_int max_results @ '':'' @ order;
          request = CommentThreadsList ''id,snippet,replies'' video_id (min max_results 100)
                      order ''plainText''
      in case make_request e request ''comments'' (Some cache_key) s of
           None \<Rightarrow> None
         | Some (Inr result, s') \<Rightarrow> Some (Inr result, s')
         | Some (Inl err, s') \<Rightarrow>
             if is_YouTubeAPIError err then
               if str_contains ''disabled'' (lower (str_error err))
                  \<or> str_contains ''not found'' (lower (str_error err))
               then Some (Inr empty_items, s')
               else Some (Inl err, s')
             else Some (Inl err, s'))"

text \<open>\<^verbatim>\<open>YouTubeAPIWrapper.get_video_captions\<close>.\<close>

definition get_video_captions ::
  "env \<Rightarrow> string \<Rightarrow> YouTubeAPIWrapper \<Rightarrow> ((error + pyval) \<times> YouTubeAPIWrapper) option" where
  "get_video_captions e video_id s =
     (let cache_key = ''captions:'' @ video_id;
          request = CaptionsList ''id,snippet'' video_id
      in case make_request e request ''captions'' (Some cache_key) s of
           None \<Rightarrow> None
         | Some (Inr result, s') \<Rightarrow> Some (Inr result, s')
         | Some (Inl err, s') \<Rightarrow>
             if is_YouTubeAPIError err then Some (Inr empty_items, s')
             else Some (Inl err, s'))"

text \<open>
  \<^verbatim>\<open>all_videos.extend(result.get('items', []))\<close>: the items a result contributes.
  \<^verbatim>\<open>get\<close> exists on dictionaries only; \<^verbatim>\<open>extend\<close> iterates a list, the characters
  of a string or the keys of a dictionary, and raises on anything else.
\<close>

definition result_items :: "pyval \<Rightarrow> error + pyval list" where
  "result_items result =
     (case result of
        PDict kvs \<Rightarrow>
          (case map_of kvs ''items'' of
             None \<Rightarrow> Inr []
           | Some (PList xs) \<Rightarrow> Inr xs
           | Some (PStr str) \<Rightarrow> Inr (map (\<lambda>c. PStr [c]) str)
           | Some (PDict d) \<Rightarrow> Inr (map (\<lambda>kv. PStr (fst kv)) d)
           | Some _ \<Rightarrow> Inl TypeError)
      | _ \<Rightarrow> Inl AttributeError)"

text \<open>
  \<^verbatim>\<open>YouTubeAPIWrapper.batch_get_video_details\<close>: the loop
  \<^verbatim>\<open>for i in range(0, len(video_ids), batch_size)\<close> from index \<open>i\<close> on, with the videos
  collected so far.
\<close>

definition batch_size :: nat where
  "batch_size = 50"

function batch_loop ::
  "env \<Rightarrow> string list \<Rightarrow> nat \<Rightarrow> pyval list \<Rightarrow> YouTubeAPIWrapper
     \<Rightarrow> ((error + pyval list) \<times> YouTubeAPIWrapper) option" where
  "batch_loop e video_ids i all_videos s =
     (if i < length video_ids then
        let batch_ids = take batch_size (drop i video_ids) in
        case get_video_details e batch_ids s of
          None \<Rightarrow> None
        | Some (Inl err, s') \<Rightarrow> Some (Inl err, s')
        | Some (Inr result, s') \<Rightarrow>
            (case result_items result of
               Inl err \<Rightarrow> Some (Inl err, s')
             | Inr items \<Rightarrow> batch_loop e video_ids (i + batch_size) (all_videos @ items) s')
      else Some (Inr all_videos, s))"
  by pat_completeness auto
termination
  by (relation "measure (\<lambda>(e, video_ids, i, all_videos, s). length video_ids - i)")
     (auto simp: batch_size_def)

definition batch_get_video_details ::
  "env \<Rightarrow> string list \<Rightarrow> YouTubeAPIWrapper \<Rightarrow> ((error + pyval list) \<times> YouTubeAPIWrapper) option" where
  "batch_get_video_details e video_ids s = batch_loop e video_ids 0 [] s"

text \<open>
  The cache key of \<^verbatim>\<open>YouTubeAPIWrapper.search_videos\<close>, derived from the hash \<open>h\<close> of
  the process. The two dates are given as the text \<^verbatim>\<open>str\<close> prints for them.
\<close>

definition search_key_text ::
  "string \<Rightarrow> int \<Rightarrow> string \<Rightarrow> string option \<Rightarrow> string option \<Rightarrow> string option
     \<Rightarrow> string option \<Rightarrow> string option \<Rightarrow> string" where
  "search_key_text query max_results order published_after published_before region_code
       language content_type =
     query @ '':'' @ str_int max_results @ '':'' @ order @ '':'' @ str_opt published_after
       @ '':'' @ str_opt published_before @ '':'' @ str_opt region_code @ '':''
       @ str_opt language @ '':'' @ str_opt content_type"

definition search_videos_cache_key ::
  "(string \<Rightarrow> int) \<Rightarrow> string \<Rightarrow> int \<Rightarrow> string \<Rightarrow> string option \<Rightarrow> string option
     \<Rightarrow> string option \<Rightarrow> string option \<Rightarrow> string option \<Rightarrow> string" where
  "search_videos_cache_key h query max_results order published_after published_before
       region_code language content_type =
     ''search:'' @ str_int (h (search_key_text query max_results order published_after
                                  published_before region_code language content_type))"

section \<open>Vocabulary of the properties\<close>

text \<open>A bucket is within bounds when it holds between 0 and its capacity.\<close>

definition bucket_inv :: "RateLimiter \<Rightarrow> bool" where
  "bucket_inv rl \<longleftrightarrow>
     0 \<le> minute_tokens rl \<and> minute_tokens rl \<le> calls_per_minute (config rl) \<and>
     0 \<le> hour_tokens rl \<and> hour_tokens rl \<le> calls_per_hour (config rl) \<and>
     0 \<le> burst_tokens rl \<and> burst_tokens rl \<le> burst_limit (config rl)"

text \<open>No bucket was refilled later than \<open>now\<close>: the clock has not run backwards.\<close>

definition refilled_before :: "rat \<Rightarrow> RateLimiter \<Rightarrow> bool" where
  "refilled_before now rl \<longleftrightarrow>
     minute_last_refill rl \<le> now \<and> hour_last_refill rl \<le> now \<and> burst_last_refill rl \<le> now"

text \<open>The three buckets of \<open>rl'\<close> are those of \<open>rl\<close> less \<open>tokens\<close> each.\<close>

definition deducted :: "int \<Rightarrow> RateLimiter \<Rightarrow> RateLimiter \<Rightarrow> bool" where
  "deducted tokens rl rl' \<longleftrightarrow>
     minute_tokens rl' = minute_tokens rl - tokens \<and>
     hour_tokens rl' = hour_tokens rl - tokens \<and>
     burst_tokens rl' = burst_tokens rl - tokens"

text \<open>The request exceeds the capacity of a bucket.\<close>

definition over_capacity :: "int \<Rightarrow> RateLimiter \<Rightarrow> bool" where
  "over_capacity tokens rl \<longleftrightarrow>
     calls_per_minute (config rl) < tokens \<or> calls_per_hour (config rl) < tokens \<or>
     burst_limit (config rl) < tokens"

text \<open>
  A sequence of calls on one limiter, each starting where the last one returned. The
  sequence has no value when one of its \<^verbatim>\<open>acquire\<close> calls never returns.
\<close>

datatype limiter_call = Acquire int | TryAcquire int

fun requested :: "limiter_call \<Rightarrow> int" where
  "requested (Acquire n) = n"
| "requested (TryAcquire n) = n"

fun run_calls :: "clock \<Rightarrow> limiter_call list \<Rightarrow> RateLimiter \<Rightarrow> nat \<Rightarrow> (RateLimiter \<times> nat) option" where
  "run_calls clk [] rl t = Some (rl, t)"
| "run_calls clk (Acquire n # calls) rl t =
     (case acquire clk n rl t of
        None \<Rightarrow> None
      | Some (_, rl', t') \<Rightarrow> run_calls clk calls rl' t')"
| "run_calls clk (TryAcquire n # calls) rl t =
     (case try_acquire clk n rl t of (_, rl', t') \<Rightarrow> run_calls clk calls rl' t')"

text \<open>A clock that advances by one second from reading to reading.\<close>

definition tick_clock :: clock where
  "tick_clock n = of_nat n"

text \<open>
  The quota in use once a due window reset has been applied: the value
  \<^verbatim>\<open>_check_quota\<close> compares against the limit.
\<close>

definition quota_after_reset :: "env \<Rightarrow> YouTubeAPIWrapper \<Rightarrow> int" where
  "quota_after_reset e s =
     (if clock e (clock_reads s) > quota_reset_time s then 0 else quota_used s)"

text \<open>
  A process for the concrete runs below: default settings, the one-second clock, a
  provider that answers every request with one item, a string hash and a digest that
  are fixed functions.
\<close>

definition example_env :: env where
  "example_env =
     \<lparr>settings = default_settings, clock = tick_clock,
      upstream = (\<lambda>k r. Ok (PDict [(''items'', PList [PInt (int k)])])),
      py_hash = (\<lambda>s. int (length s)), md5_hexdigest = (\<lambda>s. s)\<rparr>"

text \<open>A fresh client whose whole daily quota has been used.\<close>

definition quota_exhausted :: YouTubeAPIWrapper where
  "quota_exhausted = (init_wrapper example_env 0)\<lparr>quota_used := 10000\<rparr>"

text \<open>A fresh client with 9950 of its 10000 quota units used.\<close>

definition nearly_exhausted :: YouTubeAPIWrapper where
  "nearly_exhausted = (init_wrapper example_env 0)\<lparr>quota_used := 9950\<rparr>"

text \<open>A client whose quota deadline passed 5000 seconds before the clock started.\<close>

definition overdue :: YouTubeAPIWrapper where
  "overdue = (init_wrapper example_env 0)\<lparr>quota_used := 500, quota_reset_time := - 5000\<rparr>"

text \<open>
  A fresh client whose cache holds a live entry with the empty dictionary under the key
  of the captions of video \<open>v\<close>.
\<close>

definition stale_empty :: YouTubeAPIWrapper where
  "stale_empty =
     (let s = init_wrapper example_env 0 in
      s\<lparr>cache_manager := (cache_manager s)\<lparr>memory_cache :=
           [(''ytce:captions:v'', \<lparr>cached_value = PDict [], expires_at = 1000\<rparr>)]\<rparr>\<rparr>)"

text \<open>
  The state and the reading index of \<^verbatim>\<open>acquire\<close> after \<open>k\<close> passes through its loop
  that did not admit the request: each such pass refills and waits, nothing else.
\<close>

fun after_waits :: "clock \<Rightarrow> int \<Rightarrow> nat \<Rightarrow> RateLimiter \<Rightarrow> nat \<Rightarrow> RateLimiter \<times> nat" where
  "after_waits clk tokens 0 rl t = (rl, t)"
| "after_waits clk tokens (Suc k) rl t =
     (let rl1 = refill_tokens (clk t) rl
      in after_waits clk tokens k rl1 (t + 1 + wait_readings tokens rl1))"

text \<open>The refilled state that the admission test sees in pass \<open>k\<close> (counted from 0).\<close>

definition tested_state :: "clock \<Rightarrow> int \<Rightarrow> nat \<Rightarrow> RateLimiter \<Rightarrow> nat \<Rightarrow> RateLimiter" where
  "tested_state clk tokens k rl t =
     (case after_waits clk tokens k rl t of (rl_k, t_k) \<Rightarrow> refill_tokens (clk t_k) rl_k)"

text \<open>
  The request is beyond reach: above the capacity of the minute or of the hour bucket,
  or above both the capacity and the content of the burst bucket.
\<close>

definition beyond_reach :: "int \<Rightarrow> RateLimiter \<Rightarrow> bool" where
  "beyond_reach tokens rl \<longleftrightarrow>
     calls_per_minute (config rl) < tokens \<or> calls_per_hour (config rl) < tokens \<or>
     (burst_limit (config rl) < tokens \<and> burst_tokens rl < tokens)"

text \<open>A clock that is set back by two minutes after the third reading.\<close>

definition step_back_clock :: clock where
  "step_back_clock n = (if n < 3 then 1000 else 880)"

text \<open>
  The index of the clock reading at which the pipeline calls \<^verbatim>\<open>rate_limiter.acquire()\<close>:
  the one that follows the readings of the quota check.
\<close>

definition reads_after_check :: "env \<Rightarrow> string \<Rightarrow> YouTubeAPIWrapper \<Rightarrow> nat" where
  "reads_after_check e operation s = clock_reads (snd (check_quota e operation s))"





section \<open>The rate limiter keeps its buckets within bounds\<close>

lemma py_int_nonneg: "0 \<le> x \<Longrightarrow> 0 \<le> py_int x"
  by (simp add: py_int_def)

lemma round_half_even_nonneg: "0 \<le> m \<Longrightarrow> 0 \<le> round_half_even m"
  by (auto simp: round_half_even_def Let_def)

lemma pow2_pos: "0 < pow2 k"
  by (simp add: pow2_def)

lemma round_double_nonneg: "0 \<le> x \<Longrightarrow> 0 \<le> round_double x"
  by (auto simp: round_double_def Let_def sgn_if intro!: mult_nonneg_nonneg round_half_even_nonneg
      divide_nonneg_pos pow2_pos less_imp_le [OF pow2_pos])

lemma float_sub_nonneg: "b \<le> a \<Longrightarrow> 0 \<le> float_sub a b"
  by (simp add: float_sub_def round_double_nonneg)

lemma tokens_to_add_nonneg:
  assumes "0 \<le> elapsed" "0 < d" "0 \<le> cap"
  shows "0 \<le> py_int (float_mul (float_div elapsed d) (float_of_int cap))"
proof -
  have "0 \<le> float_div elapsed d" using assms(1,2)
    by (simp add: float_div_def round_double_nonneg)
  moreover have "0 \<le> float_of_int cap" using assms(3)
    by (simp add: float_of_int_def round_double_nonneg)
  ultimately have "0 \<le> float_mul (float_div elapsed d) (float_of_int cap)"
    by (simp add: float_mul_def round_double_nonneg)
  then show ?thesis by (rule py_int_nonneg)
qed

lemma mono_tick_clock: "mono tick_clock"
  by (rule monoI) (simp add: tick_clock_def)

lemma refill_minute_fields [simp]:
  "config (refill_minute now rl) = config rl"
  "hour_tokens (refill_minute now rl) = hour_tokens rl"
  "burst_tokens (refill_minute now rl) = burst_tokens rl"
  "hour_last_refill (refill_minute now rl) = hour_last_refill rl"
  "burst_last_refill (refill_minute now rl) = burst_last_refill rl"
  by (simp_all add: refill_minute_def Let_def)

lemma refill_hour_fields [simp]:
  "config (refill_hour now rl) = config rl"
  "minute_tokens (refill_hour now rl) = minute_tokens rl"
  "burst_tokens (refill_hour now rl) = burst_tokens rl"
  "minute_last_refill (refill_hour now rl) = minute_last_refill rl"
  "burst_last_refill (refill_hour now rl) = burst_last_refill rl"
  by (simp_all add: refill_hour_def Let_def)

lemma refill_burst_fields [simp]:
  "config (refill_burst now rl) = config rl"
  "minute_tokens (refill_burst now rl) = minute_tokens rl"
  "hour_tokens (refill_burst now rl) = hour_tokens rl"
  "minute_last_refill (refill_burst now rl) = minute_last_refill rl"
  "hour_last_refill (refill_burst now rl) = hour_last_refill rl"
  by (simp_all add: refill_burst_def Let_def)

lemma refill_minute_bounds:
  "minute_tokens (refill_minute now rl) \<le> calls_per_minute (config rl)"
  "0 \<le> minute_tokens rl \<Longrightarrow> minute_tokens rl \<le> calls_per_minute (config rl)
     \<Longrightarrow> minute_last_refill rl \<le> now \<Longrightarrow> 0 \<le> minute_tokens (refill_minute now rl)"
  "minute_last_refill rl \<le> now \<Longrightarrow> minute_last_refill (refill_minute now rl) \<le> now"
proof -
  show "minute_tokens (refill_minute now rl) \<le> calls_per_minute (config rl)"
    by (simp add: refill_minute_def Let_def)
  show "minute_last_refill rl \<le> now \<Longrightarrow> minute_last_refill (refill_minute now rl) \<le> now"
    by (simp add: refill_minute_def Let_def)
  assume a: "0 \<le> minute_tokens rl" "minute_tokens rl \<le> calls_per_minute (config rl)"
    "minute_last_refill rl \<le> now"
  have "0 \<le> py_int (float_mul (float_div (float_sub now (minute_last_refill rl)) 60)
                        (float_of_int (calls_per_minute (config rl))))"
    using a by (intro tokens_to_add_nonneg float_sub_nonneg) auto
  with a show "0 \<le> minute_tokens (refill_minute now rl)"
    by (simp add: refill_minute_def Let_def)
qed

lemma refill_hour_bounds:
  "hour_tokens (refill_hour now rl) \<le> calls_per_hour (config rl)"
  "0 \<le> hour_tokens rl \<Longrightarrow> hour_tokens rl \<le> calls_per_hour (config rl)
     \<Longrightarrow> hour_last_refill rl \<le> now \<Longrightarrow> 0 \<le> hour_tokens (refill_hour now rl)"
  "hour_last_refill rl \<le> now \<Longrightarrow> hour_last_refill (refill_hour now rl) \<le> now"
proof -
  show "hour_tokens (refill_hour now rl) \<le> calls_per_hour (config rl)"
    by (simp add: refill_hour_def Let_def)
  show "hour_last_refill rl \<le> now \<Longrightarrow> hour_last_refill (refill_hour now rl) \<le> now"
    by (simp add: refill_hour_def Let_def)
  assume a: "0 \<le> hour_tokens rl" "hour_tokens rl \<le> calls_per_hour (config rl)"
    "hour_last_refill rl \<le> now"
  have "0 \<le> py_int (float_mul (float_div (float_sub now (hour_last_refill rl)) 3600)
                        (float_of_int (calls_per_hour (config rl))))"
    using a by (intro tokens_to_add_nonneg float_sub_nonneg) auto
  with a show "0 \<le> hour_tokens (refill_hour now rl)"
    by (simp add: refill_hour_def Let_def)
qed

lemma refill_burst_bounds:
  "burst_tokens rl \<le> burst_limit (config rl)
     \<Longrightarrow> burst_tokens (refill_burst now rl) \<le> burst_limit (config rl)"
  "0 \<le> burst_tokens rl \<Longrightarrow> burst_tokens rl \<le> burst_limit (config rl)
     \<Longrightarrow> 0 \<le> burst_tokens (refill_burst now rl)"
  "burst_last_refill rl \<le> now \<Longrightarrow> burst_last_refill (refill_burst now rl) \<le> now"
  "burst_tokens (refill_burst now rl) = burst_tokens rl
     \<or> burst_tokens (refill_burst now rl) = burst_limit (config rl)"
  by (simp_all add: refill_burst_def Let_def)

lemma refill_tokens_config [simp]: "config (refill_tokens now rl) = config rl"
  by (simp add: refill_tokens_def)

lemma consume_tokens_config [simp]: "config (consume_tokens n rl) = config rl"
  by (simp add: consume_tokens_def)

lemma refill_tokens_inv:
  assumes "bucket_inv rl" "refilled_before now rl"
  shows "bucket_inv (refill_tokens now rl)"
proof -
  let ?m = "refill_minute now rl"
  let ?h = "refill_hour now ?m"
  from assms have m: "0 \<le> minute_tokens ?m" "minute_tokens ?m \<le> calls_per_minute (config rl)"
    by (simp_all add: bucket_inv_def refilled_before_def refill_minute_bounds)
  from assms have h: "0 \<le> hour_tokens ?h" "hour_tokens ?h \<le> calls_per_hour (config rl)"
    using refill_hour_bounds(1,2) [where now = now and rl = ?m]
    by (simp_all add: bucket_inv_def refilled_before_def)
  from assms have b: "0 \<le> burst_tokens (refill_burst now ?h)"
      "burst_tokens (refill_burst now ?h) \<le> burst_limit (config rl)"
    using refill_burst_bounds(1,2) [where now = now and rl = ?h]
    by (simp_all add: bucket_inv_def)
  from m h b show ?thesis by (simp add: bucket_inv_def refill_tokens_def)
qed

lemma refill_tokens_before:
  assumes "refilled_before now rl"
  shows "refilled_before now (refill_tokens now rl)"
proof -
  let ?m = "refill_minute now rl"
  let ?h = "refill_hour now ?m"
  from assms have "minute_last_refill ?m \<le> now"
    by (simp add: refilled_before_def refill_minute_bounds)
  moreover from assms have "hour_last_refill ?h \<le> now"
    using refill_hour_bounds(3) [where now = now and rl = ?m] by (simp add: refilled_before_def)
  moreover from assms have "burst_last_refill (refill_burst now ?h) \<le> now"
    using refill_burst_bounds(3) [where now = now and rl = ?h] by (simp add: refilled_before_def)
  ultimately show ?thesis by (simp add: refilled_before_def refill_tokens_def)
qed

lemma refill_tokens_upper:
  "minute_tokens (refill_tokens now rl) \<le> calls_per_minute (config rl)"
  "hour_tokens (refill_tokens now rl) \<le> calls_per_hour (config rl)"
  "burst_tokens rl \<le> burst_limit (config rl)
     \<Longrightarrow> burst_tokens (refill_tokens now rl) \<le> burst_limit (config rl)"
proof -
  let ?m = "refill_minute now rl"
  let ?h = "refill_hour now ?m"
  show "minute_tokens (refill_tokens now rl) \<le> calls_per_minute (config rl)"
    by (simp add: refill_tokens_def refill_minute_bounds)
  show "hour_tokens (refill_tokens now rl) \<le> calls_per_hour (config rl)"
    using refill_hour_bounds(1) [where now = now and rl = ?m] by (simp add: refill_tokens_def)
  show "burst_tokens rl \<le> burst_limit (config rl)
     \<Longrightarrow> burst_tokens (refill_tokens now rl) \<le> burst_limit (config rl)"
    using refill_burst_bounds(1) [where now = now and rl = ?h] by (simp add: refill_tokens_def)
qed

lemma refill_tokens_burst:
  "burst_tokens (refill_tokens now rl) = burst_tokens rl
     \<or> burst_tokens (refill_tokens now rl) = burst_limit (config rl)"
  using refill_burst_bounds(4) [where now = now and rl = "refill_hour now (refill_minute now rl)"]
  by (simp add: refill_tokens_def)

lemma consume_tokens_inv:
  assumes "bucket_inv rl" "enough_tokens tokens rl" "0 \<le> tokens"
  shows "bucket_inv (consume_tokens tokens rl)"
  using assms by (simp add: bucket_inv_def enough_tokens_def consume_tokens_def)

lemma refilled_before_mono: "refilled_before a rl \<Longrightarrow> a \<le> b \<Longrightarrow> refilled_before b rl"
  by (auto simp: refilled_before_def)

lemma refilled_before_consume [simp]:
  "refilled_before a (consume_tokens n rl) = refilled_before a rl"
  by (simp add: refilled_before_def consume_tokens_def)

lemma refilled_before_timestamps [simp]:
  "refilled_before a (rl\<lparr>request_timestamps := xs\<rparr>) = refilled_before a rl"
  by (simp add: refilled_before_def)

lemma bucket_inv_timestamps [simp]:
  "bucket_inv (rl\<lparr>request_timestamps := xs\<rparr>) = bucket_inv rl"
  by (simp add: bucket_inv_def)

lemma deducted_consume [simp]:
  "deducted n rl ((consume_tokens n rl)\<lparr>request_timestamps := xs\<rparr>)"
  by (simp add: deducted_def consume_tokens_def)

lemma tested_state_0 [simp]: "tested_state clk tokens 0 rl t = refill_tokens (clk t) rl"
  by (simp add: tested_state_def)

lemma tested_state_Suc [simp]:
  "tested_state clk tokens (Suc k) rl t =
     tested_state clk tokens k (refill_tokens (clk t) rl)
       (t + 1 + wait_readings tokens (refill_tokens (clk t) rl))"
  by (simp add: tested_state_def Let_def)

text \<open>
  What a returning \<^verbatim>\<open>acquire\<close> has done, by induction on the passes through its loop:
  the bounds still hold.
\<close>

lemma acquire_inv:
  "acquire clk tokens rl t = Some y \<Longrightarrow>
     mono clk \<longrightarrow> 0 \<le> tokens \<longrightarrow> bucket_inv rl \<longrightarrow> refilled_before (clk t) rl \<longrightarrow>
       bucket_inv (fst (snd y)) \<and> refilled_before (clk (snd (snd y))) (fst (snd y)) \<and>
       config (fst (snd y)) = config rl"
proof (induct rule: acquire.raw_induct [rotated 1, consumes 1, case_names step])
  case (step acq clk tokens rl t y)
  let ?rl1 = "refill_tokens (clk t) rl"
  show ?case
  proof (intro impI)
    assume m: "mono clk" and n: "0 \<le> tokens" and b: "bucket_inv rl"
      and r: "refilled_before (clk t) rl"
    have b1: "bucket_inv ?rl1" using b r by (rule refill_tokens_inv)
    have r1: "refilled_before (clk t) ?rl1" using r by (rule refill_tokens_before)
    show "bucket_inv (fst (snd y)) \<and> refilled_before (clk (snd (snd y))) (fst (snd y)) \<and>
         config (fst (snd y)) = config rl"
    proof (cases "enough_tokens tokens ?rl1")
      case True
      have le: "clk t \<le> clk (t + 3)" using m by (simp add: monoD)
      from True step(2) have y: "y = (True, (consume_tokens tokens ?rl1)\<lparr>request_timestamps :=
            filter (\<lambda>ts. ts > float_sub (clk (t + 2)) 3600)
              (request_timestamps (consume_tokens tokens ?rl1) @ [clk (t + 1)])\<rparr>, t + 3)"
        by (simp add: Let_def)
      show ?thesis
        using consume_tokens_inv [OF b1 True n] refilled_before_mono [OF r1 le]
        by (simp add: y)
    next
      case False
      let ?t1 = "t + 1 + wait_readings tokens ?rl1"
      from False step(2) have rec: "acq clk tokens ?rl1 ?t1 = Some y"
        by (simp add: Let_def)
      have le: "clk t \<le> clk ?t1" using m by (simp add: monoD)
      from step(1) [OF rec] m n b1 refilled_before_mono [OF r1 le]
      show ?thesis by simp
    qed
  qed
qed

text \<open>
  A returning \<^verbatim>\<open>acquire\<close> has admitted the request in some pass \<open>k\<close>: the refilled
  state of that pass held enough in all three buckets, the result is that state less the
  tokens in each bucket, and no earlier pass passed the test.
\<close>

lemma acquire_admitted:
  "acquire clk tokens rl t = Some y \<Longrightarrow>
     fst y \<and>
     (\<exists>k. enough_tokens tokens (tested_state clk tokens k rl t) \<and>
          deducted tokens (tested_state clk tokens k rl t) (fst (snd y)) \<and>
          (\<forall>j<k. \<not> enough_tokens tokens (tested_state clk tokens j rl t)))"
proof (induct rule: acquire.raw_induct [rotated 1, consumes 1, case_names step])
  case (step acq clk tokens rl t y)
  let ?rl1 = "refill_tokens (clk t) rl"
  let ?t1 = "t + 1 + wait_readings tokens ?rl1"
  show ?case
  proof (cases "enough_tokens tokens ?rl1")
    case True
    from True step(2) have y: "y = (True, (consume_tokens tokens ?rl1)\<lparr>request_timestamps :=
          filter (\<lambda>ts. ts > float_sub (clk (t + 2)) 3600)
            (request_timestamps (consume_tokens tokens ?rl1) @ [clk (t + 1)])\<rparr>, t + 3)"
      by (simp add: Let_def)
    have "enough_tokens tokens (tested_state clk tokens 0 rl t) \<and>
          deducted tokens (tested_state clk tokens 0 rl t) (fst (snd y)) \<and>
          (\<forall>j<0. \<not> enough_tokens tokens (tested_state clk tokens j rl t))"
      using True by (simp add: y)
    moreover have "fst y" by (simp add: y)
    ultimately show ?thesis by blast
  next
    case False
    with step(2) have "acq clk tokens ?rl1 ?t1 = Some y"
      by (simp add: Let_def)
    from step(1) [OF this] obtain k where y: "fst y"
      and k: "enough_tokens tokens (tested_state clk tokens k ?rl1 ?t1)"
        "deducted tokens (tested_state clk tokens k ?rl1 ?t1) (fst (snd y))"
        "\<forall>j<k. \<not> enough_tokens tokens (tested_state clk tokens j ?rl1 ?t1)"
      by blast
    have "\<not> enough_tokens tokens (tested_state clk tokens j rl t)" if "j < Suc k" for j
    proof (cases j)
      case 0
      with False show ?thesis by simp
    next
      case (Suc i)
      with that k(3) show ?thesis by simp
    qed
    with k(1,2) have "enough_tokens tokens (tested_state clk tokens (Suc k) rl t) \<and>
          deducted tokens (tested_state clk tokens (Suc k) rl t) (fst (snd y)) \<and>
          (\<forall>j<Suc k. \<not> enough_tokens tokens (tested_state clk tokens j rl t))"
      by simp
    with y show ?thesis by blast
  qed
qed

lemma beyond_reach_refill:
  assumes "beyond_reach tokens rl"
  shows "beyond_reach tokens (refill_tokens now rl)" "\<not> enough_tokens tokens (refill_tokens now rl)"
proof -
  have u: "minute_tokens (refill_tokens now rl) \<le> calls_per_minute (config rl)"
    "hour_tokens (refill_tokens now rl) \<le> calls_per_hour (config rl)"
    by (rule refill_tokens_upper)+
  note b = refill_tokens_burst [of now rl]
  from assms b show "beyond_reach tokens (refill_tokens now rl)"
    by (auto simp: beyond_reach_def)
  from assms u b show "\<not> enough_tokens tokens (refill_tokens now rl)"
    by (auto simp: beyond_reach_def enough_tokens_def)
qed

lemma acquire_beyond_reach:
  "acquire clk tokens rl t = Some y \<Longrightarrow> \<not> beyond_reach tokens rl"
proof (induct rule: acquire.raw_induct [rotated 1, consumes 1, case_names step])
  case (step acq clk tokens rl t y)
  let ?rl1 = "refill_tokens (clk t) rl"
  show ?case
  proof
    assume over: "beyond_reach tokens rl"
    note r = beyond_reach_refill [OF over, of "clk t"]
    from r(2) step(2) have rec: "acq clk tokens ?rl1 (t + 1 + wait_readings tokens ?rl1) = Some y"
      by (simp add: Let_def)
    from step(1) [OF rec] r(1) show False by simp
  qed
qed

lemma try_acquire_inv:
  assumes "try_acquire clk tokens rl t = (b, rl', t')"
    and "mono clk" "0 \<le> tokens" "bucket_inv rl" "refilled_before (clk t) rl"
  shows "bucket_inv rl' \<and> refilled_before (clk t') rl' \<and> config rl' = config rl"
proof -
  let ?rl1 = "refill_tokens (clk t) rl"
  have b1: "bucket_inv ?rl1" using assms(4,5) by (rule refill_tokens_inv)
  have r1: "refilled_before (clk t) ?rl1" using assms(5) by (rule refill_tokens_before)
  show ?thesis
  proof (cases "enough_tokens tokens ?rl1")
    case True
    have le: "clk t \<le> clk (t + 2)" using assms(2) by (simp add: monoD)
    from True assms(1) have "rl' = (consume_tokens tokens ?rl1)\<lparr>request_timestamps :=
        request_timestamps (consume_tokens tokens ?rl1) @ [clk (t + 1)]\<rparr>" "t' = t + 2"
      by (auto simp: try_acquire_def Let_def)
    then show ?thesis
      using consume_tokens_inv [OF b1 True assms(3)] refilled_before_mono [OF r1 le] by simp
  next
    case False
    have le: "clk t \<le> clk (t + 1)" using assms(2) by (simp add: monoD)
    from False assms(1) have "rl' = ?rl1" "t' = t + 1"
      by (auto simp: try_acquire_def Let_def)
    then show ?thesis using b1 refilled_before_mono [OF r1 le] by simp
  qed
qed

lemma run_calls_inv:
  "run_calls clk calls rl t = Some (rl', t') \<Longrightarrow> mono clk \<Longrightarrow> \<forall>c\<in>set calls. 0 \<le> requested c \<Longrightarrow>
     bucket_inv rl \<Longrightarrow> refilled_before (clk t) rl \<Longrightarrow> bucket_inv rl' \<and> config rl' = config rl"
proof (induction calls arbitrary: rl t)
  case Nil
  then show ?case by simp
next
  case (Cons c calls)
  show ?case
  proof (cases c)
    case (Acquire n)
    with Cons.prems(1) obtain b rl1 t1 where a: "acquire clk n rl t = Some (b, rl1, t1)"
      and rest: "run_calls clk calls rl1 t1 = Some (rl', t')"
      by (auto split: option.splits)
    from Cons.prems(3) Acquire have n: "0 \<le> n" by simp
    from acquire_inv [OF a] Cons.prems(2,4,5) n
    have "bucket_inv rl1" "refilled_before (clk t1) rl1" "config rl1 = config rl" by simp_all
    with Cons.IH [OF rest Cons.prems(2)] Cons.prems(3) show ?thesis by simp
  next
    case (TryAcquire n)
    with Cons.prems(1) obtain b rl1 t1 where a: "try_acquire clk n rl t = (b, rl1, t1)"
      and rest: "run_calls clk calls rl1 t1 = Some (rl', t')"
      by (auto split: prod.splits)
    from Cons.prems(3) TryAcquire have n: "0 \<le> n" by simp
    from try_acquire_inv [OF a Cons.prems(2) n Cons.prems(4,5)]
    have "bucket_inv rl1" "refilled_before (clk t1) rl1" "config rl1 = config rl" by simp_all
    with Cons.IH [OF rest Cons.prems(2)] Cons.prems(3) show ?thesis by simp
  qed
qed

text \<open>
  Claim C3, counterexample: on a fresh limiter with the default configuration, built at
  clock reading 1000, a \<^verbatim>\<open>try_acquire(1)\<close> that reads the clock at 880 leaves the
  minute bucket at -100.
\<close>

theorem clock_set_back_counterexample:
  "run_calls step_back_clock [TryAcquire 1]
       (fst (init_rate_limiter step_back_clock default_config 0)) 3 \<noteq> None \<and>
   minute_tokens (fst (the (run_calls step_back_clock [TryAcquire 1]
       (fst (init_rate_limiter step_back_clock default_config 0)) 3))) = - 100"
  by code_simp

text \<open>
  Claim C3, as amended. As long as the clock readings do not decrease, along every
  sequence of \<^verbatim>\<open>acquire\<close> and \<^verbatim>\<open>try_acquire\<close> calls that request non-negative token
  counts, from a state with the buckets within bounds and no refill time ahead of the
  clock, each of the three buckets stays between 0 and its capacity. A refill never
  lifts the minute or the hour bucket above its capacity, nor the burst bucket when it
  is not above it already. \<^verbatim>\<open>try_acquire\<close> deducts exactly when the refilled state
  holds the requested count in all three buckets, and then from all three; a returning
  \<^verbatim>\<open>acquire\<close> has deducted from all three buckets of the first refilled state of its
  loop that holds the requested count in all three.
\<close>

theorem rate_limiter_buckets_bounded:
  assumes "mono clk" and "bucket_inv rl" and "refilled_before (clk t) rl"
    and "\<forall>c\<in>set calls. 0 \<le> requested c"
    and "run_calls clk calls rl t = Some (rl', t')"
  shows "bucket_inv rl' \<and> config rl' = config rl \<and>
    (\<forall>now r. minute_tokens (refill_tokens now r) \<le> calls_per_minute (config r) \<and>
       hour_tokens (refill_tokens now r) \<le> calls_per_hour (config r) \<and>
       (burst_tokens r \<le> burst_limit (config r)
          \<longrightarrow> burst_tokens (refill_tokens now r) \<le> burst_limit (config r))) \<and>
    (\<forall>n r u. try_acquire clk n r u =
       (if enough_tokens n (refill_tokens (clk u) r)
        then (True, fst (snd (try_acquire clk n r u)), u + 2)
        else (False, refill_tokens (clk u) r, u + 1)) \<and>
       (enough_tokens n (refill_tokens (clk u) r)
          \<longrightarrow> deducted n (refill_tokens (clk u) r) (fst (snd (try_acquire clk n r u))))) \<and>
    (\<forall>n r u y. acquire clk n r u = Some y \<longrightarrow>
       fst y \<and>
       (\<exists>k. enough_tokens n (tested_state clk n k r u) \<and>
            deducted n (tested_state clk n k r u) (fst (snd y)) \<and>
            (\<forall>j<k. \<not> enough_tokens n (tested_state clk n j r u))))"
proof -
  have a: "bucket_inv rl' \<and> config rl' = config rl"
    using run_calls_inv [OF assms(5) assms(1) assms(4) assms(2) assms(3)] .
  have b: "\<forall>now r. minute_tokens (refill_tokens now r) \<le> calls_per_minute (config r) \<and>
       hour_tokens (refill_tokens now r) \<le> calls_per_hour (config r) \<and>
       (burst_tokens r \<le> burst_limit (config r)
          \<longrightarrow> burst_tokens (refill_tokens now r) \<le> burst_limit (config r))"
    by (simp add: refill_tokens_upper)
  have c: "\<forall>n r u. try_acquire clk n r u =
       (if enough_tokens n (refill_tokens (clk u) r)
        then (True, fst (snd (try_acquire clk n r u)), u + 2)
        else (False, refill_tokens (clk u) r, u + 1)) \<and>
       (enough_tokens n (refill_tokens (clk u) r)
          \<longrightarrow> deducted n (refill_tokens (clk u) r) (fst (snd (try_acquire clk n r u))))"
    by (simp add: try_acquire_def Let_def)
  have d: "\<forall>n r u y. acquire clk n r u = Some y \<longrightarrow>
       fst y \<and>
       (\<exists>k. enough_tokens n (tested_state clk n k r u) \<and>
            deducted n (tested_state clk n k r u) (fst (snd y)) \<and>
            (\<forall>j<k. \<not> enough_tokens n (tested_state clk n j r u)))"
    using acquire_admitted by blast
  from a b c d show ?thesis by blast
qed

text \<open>
  Claim C3, witness: three calls on a fresh limiter with the default configuration under
  the one-second clock; the burst bucket, refilled before the last call, ends full.
\<close>

theorem rate_limiter_buckets_bounded_witness:
  "\<exists>rl' t'. run_calls tick_clock [Acquire 1, TryAcquire 2, Acquire 0]
       (fst (init_rate_limiter tick_clock default_config 0)) 3 = Some (rl', t') \<and>
     bucket_inv rl' \<and> burst_tokens rl' = 10"
proof -
  let ?rl = "fst (init_rate_limiter tick_clock default_config 0)"
  let ?calls = "[Acquire 1, TryAcquire 2, Acquire 0]"
  have "run_calls tick_clock ?calls ?rl 3 \<noteq> None \<and>
      burst_tokens (fst (the (run_calls tick_clock ?calls ?rl 3))) = 10" by code_simp
  then obtain rl' t' where run: "run_calls tick_clock ?calls ?rl 3 = Some (rl', t')"
    and bt: "burst_tokens rl' = 10" by auto
  have b: "bucket_inv ?rl" by code_simp
  have r: "refilled_before (tick_clock 3) ?rl" by code_simp
  have n: "\<forall>c\<in>set ?calls. 0 \<le> requested c" by simp
  from rate_limiter_buckets_bounded [OF mono_tick_clock b r n run] run bt show ?thesis by blast
qed

section \<open>Requests above a bucket's capacity\<close>

text \<open>
  Claim C5, counterexample: on a fresh limiter with the default configuration (burst
  capacity 10), \<^verbatim>\<open>acquire(11)\<close> does not return: it neither returns a refusal nor raises.
\<close>

theorem acquire_over_capacity_counterexample:
  "acquire tick_clock 11 (fst (init_rate_limiter tick_clock default_config 0)) 3 = None"
proof -
  let ?rl = "fst (init_rate_limiter tick_clock default_config 0)"
  have "beyond_reach 11 ?rl" by code_simp
  then have "acquire tick_clock 11 ?rl 3 \<noteq> Some y" for y
    using acquire_beyond_reach by blast
  then show ?thesis by (cases "acquire tick_clock 11 ?rl 3") auto
qed

text \<open>
  Claim C5, as amended. A request for more tokens than the capacity of the minute or of
  the hour bucket, or for more than both the capacity and the content of the burst
  bucket, is never admitted: \<^verbatim>\<open>acquire\<close> stays in its loop for ever, without a refusal,
  and \<^verbatim>\<open>try_acquire\<close> returns \<^verbatim>\<open>False\<close> having only refilled. A request above the
  capacity of some bucket is of that kind whenever the burst bucket is not above its
  capacity, as it is when the buckets are within bounds.
\<close>

theorem over_capacity_never_admitted:
  "(beyond_reach tokens rl \<longrightarrow>
      acquire clk tokens rl t = None \<and>
      try_acquire clk tokens rl t = (False, refill_tokens (clk t) rl, t + 1)) \<and>
   (over_capacity tokens rl \<and> burst_tokens rl \<le> burst_limit (config rl)
      \<longrightarrow> beyond_reach tokens rl) \<and>
   (bucket_inv rl \<longrightarrow> burst_tokens rl \<le> burst_limit (config rl))"
proof -
  have a: "acquire clk tokens rl t = None \<and>
      try_acquire clk tokens rl t = (False, refill_tokens (clk t) rl, t + 1)"
    if b: "beyond_reach tokens rl"
  proof -
    have "acquire clk tokens rl t \<noteq> Some y" for y
      using acquire_beyond_reach b by blast
    then have "acquire clk tokens rl t = None" by (cases "acquire clk tokens rl t") auto
    moreover have "try_acquire clk tokens rl t = (False, refill_tokens (clk t) rl, t + 1)"
      using beyond_reach_refill(2) [OF b, of "clk t"] by (simp add: try_acquire_def Let_def)
    ultimately show ?thesis by simp
  qed
  have b: "over_capacity tokens rl \<and> burst_tokens rl \<le> burst_limit (config rl)
      \<longrightarrow> beyond_reach tokens rl"
    by (auto simp: over_capacity_def beyond_reach_def)
  have c: "bucket_inv rl \<longrightarrow> burst_tokens rl \<le> burst_limit (config rl)"
    by (simp add: bucket_inv_def)
  from a b c show ?thesis by blast
qed

text \<open>Claim C5, witness: eleven tokens against the default burst capacity of ten.\<close>

theorem over_capacity_never_admitted_witness:
  "over_capacity 11 (fst (init_rate_limiter tick_clock default_config 0)) \<and>
   beyond_reach 11 (fst (init_rate_limiter tick_clock default_config 0)) \<and>
   acquire tick_clock 11 (fst (init_rate_limiter tick_clock default_config 0)) 3 = None \<and>
   fst (try_acquire tick_clock 11 (fst (init_rate_limiter tick_clock default_config 0)) 3) = False"
proof -
  let ?rl = "fst (init_rate_limiter tick_clock default_config 0)"
  have o: "over_capacity 11 ?rl" by code_simp
  have b: "burst_tokens ?rl \<le> burst_limit (config ?rl)" by code_simp
  from over_capacity_never_admitted [of 11 ?rl tick_clock 3] o b show ?thesis by simp
qed

section \<open>Quota\<close>

lemma cache_get_fields:
  "cache_get st md5 clk key dflt cm t = (v, cm', t') \<Longrightarrow>
     memory_cache_max_size cm' = memory_cache_max_size cm \<and> default_ttl cm' = default_ttl cm"
  by (auto simp: cache_get_def Let_def split: if_splits option.splits)

lemma lookup_cached_fields:
  assumes "lookup_cached e cache_key s = (c, s1)"
  shows "rate_limiter s1 = rate_limiter s" "executed s1 = executed s"
    "quota_used s1 = quota_used s" "quota_limit s1 = quota_limit s"
    "quota_reset_time s1 = quota_reset_time s" "orchestrated s1 = orchestrated s"
  using assms
  by (auto simp: lookup_cached_def Let_def split: if_splits prod.splits)

lemma lookup_cached_orchestrated:
  "lookup_cached e cache_key (s\<lparr>orchestrated := n\<rparr>) =
     (fst (lookup_cached e cache_key s), (snd (lookup_cached e cache_key s))\<lparr>orchestrated := n\<rparr>)"
  by (auto simp: lookup_cached_def Let_def split: if_splits prod.splits)

lemma check_quota_orchestrated:
  "check_quota e operation (s\<lparr>orchestrated := n\<rparr>) =
     (fst (check_quota e operation s), (snd (check_quota e operation s))\<lparr>orchestrated := n\<rparr>)"
  by (simp add: check_quota_def Let_def)

lemma check_quota_fields:
  assumes "check_quota e operation s = (r, s2)"
  shows "rate_limiter s2 = rate_limiter s" "executed s2 = executed s"
    "cache_manager s2 = cache_manager s" "quota_limit s2 = quota_limit s"
    "orchestrated s2 = orchestrated s"
  using assms by (auto simp: check_quota_def Let_def split: if_splits)

lemma check_quota_error:
  "check_quota e operation s = (Inl err, s2) \<Longrightarrow>
     err = QuotaExceededException ''Daily quota limit exceeded''"
  by (auto simp: check_quota_def Let_def split: if_splits)

lemma check_quota_used:
  "quota_used (snd (check_quota e operation s)) = quota_after_reset e s"
  by (simp add: check_quota_def quota_after_reset_def Let_def)

lemma check_quota_fails_iff:
  "(\<exists>err. fst (check_quota e operation s) = Inl err) \<longleftrightarrow>
     quota_after_reset e s + operation_cost operation > quota_limit s"
  by (simp add: check_quota_def quota_after_reset_def Let_def)

text \<open>
  Claim C1. In every call of \<^verbatim>\<open>_make_request\<close> that misses the cache and fails the
  quota check, the call ends with \<^verbatim>\<open>QuotaExceededException\<close>, the rate limiter is as
  it was before the call, no request has been executed, and the outcome is the same
  whatever the provider and the request are.
\<close>

theorem quota_failure_is_first_gate:
  assumes "lookup_cached e cache_key s = (None, s1)"
    and "check_quota e operation s1 = (Inl err, s2)"
  shows "make_request e request_func operation cache_key s =
           Some (Inl (QuotaExceededException ''Daily quota limit exceeded''),
                 s2\<lparr>orchestrated := orchestrated s + 1\<rparr>) \<and>
         rate_limiter s2 = rate_limiter s \<and> executed s2 = executed s \<and>
         (\<forall>u r. make_request (e\<lparr>upstream := u\<rparr>) r operation cache_key s =
                  make_request e request_func operation cache_key s)"
proof -
  have err: "err = QuotaExceededException ''Daily quota limit exceeded''"
    using assms(2) by (rule check_quota_error)
  have mr: "make_request e' r operation cache_key s =
      Some (Inl (QuotaExceededException ''Daily quota limit exceeded''),
            s2\<lparr>orchestrated := orchestrated s + 1\<rparr>)"
    if "lookup_cached e' cache_key s = (None, s1)" "check_quota e' operation s1 = (Inl err, s2)"
    for e' r
    using that err
    by (simp add: make_request_def request_pipeline_def lookup_cached_orchestrated
        check_quota_orchestrated)
  have l: "lookup_cached (e\<lparr>upstream := u\<rparr>) cache_key s = lookup_cached e cache_key s" for u
    by (simp add: lookup_cached_def)
  have c: "check_quota (e\<lparr>upstream := u\<rparr>) operation s1 = check_quota e operation s1" for u
    by (simp add: check_quota_def Let_def)
  have f: "rate_limiter s2 = rate_limiter s" "executed s2 = executed s"
    using lookup_cached_fields [OF assms(1)] check_quota_fields [OF assms(2)] by simp_all
  show ?thesis using mr [of e request_func] mr [of "e\<lparr>upstream := u\<rparr>" for u] assms l c f
    by simp
qed

text \<open>Claim C1, witness: a captions request on a client with the quota used up.\<close>

theorem quota_failure_is_first_gate_witness:
  "\<exists>s2. make_request example_env (CaptionsList ''id,snippet'' ''v'') ''captions''
           (Some ''captions:v'') quota_exhausted =
         Some (Inl (QuotaExceededException ''Daily quota limit exceeded''), s2) \<and>
       rate_limiter s2 = rate_limiter quota_exhausted \<and> executed s2 = executed quota_exhausted"
proof -
  let ?s1 = "snd (lookup_cached example_env (Some ''captions:v'') quota_exhausted)"
  let ?s2 = "snd (check_quota example_env ''captions'' ?s1)"
  have "fst (lookup_cached example_env (Some ''captions:v'') quota_exhausted) = None"
    by code_simp
  then have l: "lookup_cached example_env (Some ''captions:v'') quota_exhausted = (None, ?s1)"
    by (simp add: prod_eq_iff)
  have "fst (check_quota example_env ''captions'' ?s1) =
      Inl (QuotaExceededException ''Daily quota limit exceeded'')"
    by code_simp
  then have c: "check_quota example_env ''captions'' ?s1 =
      (Inl (QuotaExceededException ''Daily quota limit exceeded''), ?s2)"
    by (simp add: prod_eq_iff)
  from quota_failure_is_first_gate [OF l c, of "CaptionsList ''id,snippet'' ''v''"]
  have "make_request example_env (CaptionsList ''id,snippet'' ''v'') ''captions''
           (Some ''captions:v'') quota_exhausted =
         Some (Inl (QuotaExceededException ''Daily quota limit exceeded''),
               ?s2\<lparr>orchestrated := orchestrated quota_exhausted + 1\<rparr>)"
    and "rate_limiter ?s2 = rate_limiter quota_exhausted"
    and "executed ?s2 = executed quota_exhausted"
    by blast+
  then show ?thesis by simp
qed

lemma execute_request_quota:
  "execute_request e req operation cache_key s = (r, s') \<Longrightarrow>
     executed s' = executed s + 1 \<and>
     quota_used s' = (if \<exists>result. upstream e (executed s) req = Ok result
                      then quota_used s + operation_cost operation else quota_used s)"
  by (auto simp: execute_request_def update_quota_def Let_def
      split: outcome.splits if_splits prod.splits sum.splits)

lemma request_pipeline_quota:
  assumes "request_pipeline e req operation cache_key s = Some (r, s')"
  shows "if (\<exists>result. upstream e (executed s) req = Ok result) \<and>
            quota_after_reset e s + operation_cost operation \<le> quota_limit s
         then quota_used s' = quota_after_reset e s + operation_cost operation \<and>
              executed s' = executed s + 1
         else quota_used s' = quota_after_reset e s \<and>
              (quota_limit s < quota_after_reset e s + operation_cost operation
                 \<longrightarrow> executed s' = executed s)"
proof (cases "check_quota e operation s")
  case (Pair q s2)
  have used: "quota_used s2 = quota_after_reset e s"
    using check_quota_used [of e operation s] Pair by simp
  have ex: "executed s2 = executed s" using check_quota_fields [OF Pair] by simp
  show ?thesis
  proof (cases q)
    case (Inl err)
    with Pair have "\<exists>err. fst (check_quota e operation s) = Inl err" by simp
    then have "quota_after_reset e s + operation_cost operation > quota_limit s"
      by (simp only: check_quota_fails_iff)
    moreover from Pair Inl assms have "s' = s2" by (simp add: request_pipeline_def)
    ultimately show ?thesis using used ex by simp
  next
    case (Inr b)
    with Pair have "\<not> (\<exists>err. fst (check_quota e operation s) = Inl err)" by simp
    then have ok: "quota_after_reset e s + operation_cost operation \<le> quota_limit s"
      by (simp add: check_quota_fails_iff)
    from Pair Inr assms obtain rl t where
      "execute_request e req operation cache_key (s2\<lparr>rate_limiter := rl, clock_reads := t\<rparr>) = (r, s')"
      by (auto simp: request_pipeline_def split: option.splits)
    from execute_request_quota [OF this] used ex ok show ?thesis by simp
  qed
qed

text \<open>
  Claim C2. The quota check raises exactly when the quota in use, after any due window
  reset, plus the cost of the operation exceeds the limit; the check never adds the cost
  to the quota in use, in particular not when it raises; \<^verbatim>\<open>_update_quota\<close> adds the
  cost, and \<^verbatim>\<open>_make_request\<close> adds it exactly when the check passed and the provider
  answered the executed request. With limit 10000, 9950 in use and no reset due, a
  cost-100 operation raises and leaves the client unchanged but for the clock reading.
\<close>

theorem quota_check_exact:
  "((\<exists>err. fst (check_quota e operation s) = Inl err) \<longleftrightarrow>
      quota_after_reset e s + operation_cost operation > quota_limit s) \<and>
   (\<forall>err. fst (check_quota e operation s) = Inl err
      \<longrightarrow> err = QuotaExceededException ''Daily quota limit exceeded'') \<and>
   quota_used (snd (check_quota e operation s)) = quota_after_reset e s \<and>
   quota_limit (snd (check_quota e operation s)) = quota_limit s \<and>
   quota_used (update_quota operation s) = quota_used s + operation_cost operation \<and>
   (\<forall>req key r s'. make_request e req operation key s = Some (r, s') \<longrightarrow>
      (case fst (lookup_cached e key s) of
         Some v \<Rightarrow> quota_used s' = quota_used s \<and> executed s' = executed s
       | None \<Rightarrow>
           let base = quota_after_reset e (snd (lookup_cached e key s)) in
           if (\<exists>result. upstream e (executed s) req = Ok result) \<and>
              base + operation_cost operation \<le> quota_limit s
           then quota_used s' = base + operation_cost operation \<and> executed s' = executed s + 1
           else quota_used s' = base)) \<and>
   (quota_limit s = 10000 \<and> quota_used s = 9950 \<and> operation_cost operation = 100 \<and>
    \<not> clock e (clock_reads s) > quota_reset_time s
      \<longrightarrow> check_quota e operation s =
            (Inl (QuotaExceededException ''Daily quota limit exceeded''),
             s\<lparr>clock_reads := clock_reads s + 1\<rparr>))"
proof -
  have a: "(\<exists>err. fst (check_quota e operation s) = Inl err) \<longleftrightarrow>
      quota_after_reset e s + operation_cost operation > quota_limit s"
    by (rule check_quota_fails_iff)
  have b: "\<forall>err. fst (check_quota e operation s) = Inl err
      \<longrightarrow> err = QuotaExceededException ''Daily quota limit exceeded''"
    using check_quota_error [of e operation s] by (metis prod.collapse)
  have c: "quota_used (snd (check_quota e operation s)) = quota_after_reset e s"
    by (rule check_quota_used)
  have d: "quota_limit (snd (check_quota e operation s)) = quota_limit s"
    using check_quota_fields(4) [of e operation s] by (metis prod.collapse)
  have u: "quota_used (update_quota operation s) = quota_used s + operation_cost operation"
    by (simp add: update_quota_def)
  have m: "case fst (lookup_cached e key s) of
         Some v \<Rightarrow> quota_used s' = quota_used s \<and> executed s' = executed s
       | None \<Rightarrow>
           let base = quota_after_reset e (snd (lookup_cached e key s)) in
           if (\<exists>result. upstream e (executed s) req = Ok result) \<and>
              base + operation_cost operation \<le> quota_limit s
           then quota_used s' = base + operation_cost operation \<and> executed s' = executed s + 1
           else quota_used s' = base"
    if mr: "make_request e req operation key s = Some (r, s')" for req key r s'
  proof (cases "lookup_cached e key s")
    case (Pair c s1)
    note f = lookup_cached_fields [OF Pair]
    show ?thesis
    proof (cases c)
      case None
      with Pair mr have
        "request_pipeline e req operation key (s1\<lparr>orchestrated := orchestrated s + 1\<rparr>) = Some (r, s')"
        by (simp add: make_request_def lookup_cached_orchestrated)
      from request_pipeline_quota [OF this] Pair None f show ?thesis
        by (simp add: quota_after_reset_def Let_def split: if_splits)
    next
      case (Some v)
      with Pair mr have "s' = s1\<lparr>orchestrated := orchestrated s + 1\<rparr>"
        by (simp add: make_request_def lookup_cached_orchestrated)
      with Pair Some f show ?thesis by simp
    qed
  qed
  have x: "quota_limit s = 10000 \<and> quota_used s = 9950 \<and> operation_cost operation = 100 \<and>
    \<not> clock e (clock_reads s) > quota_reset_time s
      \<longrightarrow> check_quota e operation s =
            (Inl (QuotaExceededException ''Daily quota limit exceeded''),
             s\<lparr>clock_reads := clock_reads s + 1\<rparr>)"
    by (simp add: check_quota_def Let_def)
  from a b c d u m x show ?thesis by blast
qed

text \<open>Claim C2, witness: a search on a client with 9950 of 10000 units used.\<close>

theorem quota_check_exact_witness:
  "quota_limit nearly_exhausted = 10000 \<and> quota_used nearly_exhausted = 9950 \<and>
   operation_cost ''search'' = 100 \<and>
   fst (check_quota example_env ''search'' nearly_exhausted) =
     Inl (QuotaExceededException ''Daily quota limit exceeded'') \<and>
   quota_used (snd (check_quota example_env ''search'' nearly_exhausted)) = 9950"
proof -
  have l: "quota_limit nearly_exhausted = 10000" by code_simp
  have u: "quota_used nearly_exhausted = 9950" by code_simp
  have c: "operation_cost ''search'' = 100" by code_simp
  have n: "\<not> clock example_env (clock_reads nearly_exhausted) > quota_reset_time nearly_exhausted"
    by code_simp
  from quota_check_exact [where e = example_env and operation = "''search''" and s = nearly_exhausted] l u c n
  have "check_quota example_env ''search'' nearly_exhausted =
            (Inl (QuotaExceededException ''Daily quota limit exceeded''),
             nearly_exhausted\<lparr>clock_reads := clock_reads nearly_exhausted + 1\<rparr>)"
    by blast
  with l u c show ?thesis by simp
qed

text \<open>
  Claim C4, counterexample: a check made 5004 seconds after the deadline sets the new
  deadline to 86405, which is not the old deadline plus one day (81400).
\<close>

theorem quota_reset_deadline_counterexample:
  "quota_reset_time (snd (check_quota example_env ''videos'' overdue)) = 86405 \<and>
   quota_reset_time overdue + one_day = 81400"
  by code_simp

text \<open>
  Claim C4, as amended. A quota check at a time strictly past the deadline sets the
  quota in use to 0 and the deadline to one day after the clock reading taken at the
  reset; a check at or before the deadline changes neither.
\<close>

theorem quota_reset_from_check_time:
  "(clock e (clock_reads s) > quota_reset_time s \<longrightarrow>
      quota_used (snd (check_quota e operation s)) = 0 \<and>
      quota_reset_time (snd (check_quota e operation s)) = clock e (clock_reads s + 1) + one_day) \<and>
   (\<not> clock e (clock_reads s) > quota_reset_time s \<longrightarrow>
      quota_used (snd (check_quota e operation s)) = quota_used s \<and>
      quota_reset_time (snd (check_quota e operation s)) = quota_reset_time s)"
  by (simp add: check_quota_def Let_def)

text \<open>Claim C4, witness: the overdue client.\<close>

theorem quota_reset_from_check_time_witness:
  "clock example_env (clock_reads overdue) > quota_reset_time overdue \<and>
   quota_used (snd (check_quota example_env ''videos'' overdue)) = 0 \<and>
   quota_reset_time (snd (check_quota example_env ''videos'' overdue)) = 5 + one_day"
proof -
  have p: "clock example_env (clock_reads overdue) > quota_reset_time overdue" by code_simp
  have c: "clock example_env (clock_reads overdue + 1) = 5" by code_simp
  from quota_reset_from_check_time [where e = example_env and s = overdue and operation = "''videos''"] p c
  show ?thesis by simp
qed

section \<open>Falsy cached values\<close>

lemma lookup_cached_falsy:
  assumes "k \<noteq> []" "enable_caching (settings e)"
    and "map_of (memory_cache (cache_manager s)) (generate_cache_key (md5_hexdigest e) k ''ytce'') = Some entry"
    and "expires_at entry > clock e (clock_reads s)"
    and "\<not> truthy (cached_value entry)"
  shows "lookup_cached e (Some k) s = (None, s\<lparr>clock_reads := clock_reads s + 1\<rparr>)"
  using assms by (simp add: lookup_cached_def cache_key_truthy_def cache_get_def Let_def)

lemma cache_set_stores:
  assumes "cache_set st md5 clk key v ttl cm t = (Inr b, cm', t')" and "enable_caching st"
  shows "\<exists>en. map_of (memory_cache cm') (generate_cache_key md5 key ''ytce'') = Some en \<and>
           cached_value en = v"
  using assms
  by (auto simp: cache_set_def Let_def update_conv' split: prod.splits option.splits)

lemma execute_request_success:
  assumes "execute_request e req operation (Some k) s = (Inr r, s')"
    and "k \<noteq> []" "enable_caching (settings e)"
  shows "upstream e (executed s) req = Ok r \<and> executed s' = executed s + 1 \<and>
         rate_limiter s' = rate_limiter s \<and>
         quota_used s' = quota_used s + operation_cost operation \<and>
         (\<exists>en. map_of (memory_cache (cache_manager s'))
                  (generate_cache_key (md5_hexdigest e) k ''ytce'') = Some en \<and>
               cached_value en = r)"
proof (cases "upstream e (executed s) req")
  case (Ok result)
  let ?s2 = "update_quota operation (s\<lparr>executed := executed s + 1\<rparr>)"
  obtain q cm t where cs: "cache_set (settings e) (md5_hexdigest e) (clock e) k result
      (Some (cache_ttl_seconds (settings e))) (cache_manager ?s2) (clock_reads ?s2) = (q, cm, t)"
    by (metis prod_cases3)
  from assms Ok cs obtain b where q: "q = Inr b" and r: "r = result"
    and s': "s' = ?s2\<lparr>cache_manager := cm, clock_reads := t\<rparr>"
    by (cases q) (auto simp: execute_request_def cache_key_truthy_def Let_def)
  from cache_set_stores [OF cs [unfolded q] assms(3)] Ok r s'
  show ?thesis by (simp add: update_quota_def)
next
  case (HttpError status content)
  with assms(1) show ?thesis by (simp add: execute_request_def Let_def)
next
  case (OtherException msg)
  with assms(1) show ?thesis by (simp add: execute_request_def Let_def)
qed

lemma request_pipeline_success:
  assumes "request_pipeline e req operation (Some k) s = Some (Inr r, s')"
    and "k \<noteq> []" "enable_caching (settings e)"
  shows "quota_after_reset e s + operation_cost operation \<le> quota_limit s \<and>
         (\<exists>y. acquire (clock e) 1 (rate_limiter s) (reads_after_check e operation s) = Some y \<and>
              rate_limiter s' = fst (snd y)) \<and>
         (\<exists>i. enough_tokens 1
                (tested_state (clock e) 1 i (rate_limiter s) (reads_after_check e operation s)) \<and>
              deducted 1
                (tested_state (clock e) 1 i (rate_limiter s) (reads_after_check e operation s))
                (rate_limiter s') \<and>
              (\<forall>j<i. \<not> enough_tokens 1
                (tested_state (clock e) 1 j (rate_limiter s) (reads_after_check e operation s)))) \<and>
         upstream e (executed s) req = Ok r \<and> executed s' = executed s + 1 \<and>
         quota_used s' = quota_after_reset e s + operation_cost operation \<and>
         (\<exists>en. map_of (memory_cache (cache_manager s'))
                  (generate_cache_key (md5_hexdigest e) k ''ytce'') = Some en \<and>
               cached_value en = r)"
proof (cases "check_quota e operation s")
  case (Pair q s2)
  from Pair assms(1) obtain b where q: "q = Inr b"
    by (cases q) (auto simp: request_pipeline_def)
  with Pair have "\<not> (\<exists>err. fst (check_quota e operation s) = Inl err)" by simp
  then have ok: "quota_after_reset e s + operation_cost operation \<le> quota_limit s"
    by (simp add: check_quota_fails_iff)
  have used: "quota_used s2 = quota_after_reset e s"
    using check_quota_used [of e operation s] Pair by simp
  have ex: "executed s2 = executed s" using check_quota_fields [OF Pair] by simp
  have rl: "rate_limiter s2 = rate_limiter s" using check_quota_fields [OF Pair] by simp
  have t2: "clock_reads s2 = reads_after_check e operation s"
    using Pair by (simp add: reads_after_check_def)
  from Pair q assms(1) obtain y where
    a: "acquire (clock e) 1 (rate_limiter s2) (clock_reads s2) = Some y"
    and x: "execute_request e req operation (Some k)
              (s2\<lparr>rate_limiter := fst (snd y), clock_reads := snd (snd y)\<rparr>) = (Inr r, s')"
    by (auto simp: request_pipeline_def split: option.splits prod.splits)
  from execute_request_success [OF x assms(2,3)] used ex
  have x': "upstream e (executed s) req = Ok r" "executed s' = executed s + 1"
    "rate_limiter s' = fst (snd y)"
    "quota_used s' = quota_after_reset e s + operation_cost operation"
    "\<exists>en. map_of (memory_cache (cache_manager s'))
                  (generate_cache_key (md5_hexdigest e) k ''ytce'') = Some en \<and>
               cached_value en = r"
    by simp_all
  note a' = a [unfolded rl t2]
  from acquire_admitted [OF a'] x'(3)
  have adm: "\<exists>i. enough_tokens 1
                (tested_state (clock e) 1 i (rate_limiter s) (reads_after_check e operation s)) \<and>
              deducted 1
                (tested_state (clock e) 1 i (rate_limiter s) (reads_after_check e operation s))
                (rate_limiter s') \<and>
              (\<forall>j<i. \<not> enough_tokens 1
                (tested_state (clock e) 1 j (rate_limiter s) (reads_after_check e operation s)))"
    by simp
  from a' x'(3) have acq:
    "\<exists>y. acquire (clock e) 1 (rate_limiter s) (reads_after_check e operation s) = Some y \<and>
         rate_limiter s' = fst (snd y)" by blast
  from ok acq adm x'(1,2,4,5) show ?thesis by blast
qed

text \<open>
  Claim C10. When the cache holds a live entry for the key of a request and the stored
  value is falsy, \<^verbatim>\<open>_make_request\<close> does what it does on a miss: it runs the
  pipeline from the quota check on. Whenever that run returns a result, the quota check
  has passed; \<^verbatim>\<open>rate_limiter.acquire()\<close> has returned and left its state in the
  client, which is the first refilled state of its loop with a token in every bucket,
  less one token in each; the request has been executed at the provider; and the entry
  has been replaced by the new result.
\<close>

theorem falsy_cached_value_is_a_miss:
  assumes "k \<noteq> []" and "enable_caching (settings e)"
    and "map_of (memory_cache (cache_manager s))
           (generate_cache_key (md5_hexdigest e) k ''ytce'') = Some entry"
    and "expires_at entry > clock e (clock_reads s)"
    and "\<not> truthy (cached_value entry)"
  shows "make_request e req operation (Some k) s =
           request_pipeline e req operation (Some k)
             (s\<lparr>clock_reads := clock_reads s + 1, orchestrated := orchestrated s + 1\<rparr>) \<and>
         (\<forall>r s' t. make_request e req operation (Some k) s = Some (Inr r, s') \<and>
                  t = reads_after_check e operation (s\<lparr>clock_reads := clock_reads s + 1\<rparr>)
            \<longrightarrow>
            quota_after_reset e (s\<lparr>clock_reads := clock_reads s + 1\<rparr>)
              + operation_cost operation \<le> quota_limit s \<and>
            (\<exists>y. acquire (clock e) 1 (rate_limiter s) t = Some y \<and>
                 rate_limiter s' = fst (snd y)) \<and>
            (\<exists>i. enough_tokens 1 (tested_state (clock e) 1 i (rate_limiter s) t) \<and>
                 deducted 1 (tested_state (clock e) 1 i (rate_limiter s) t) (rate_limiter s') \<and>
                 (\<forall>j<i. \<not> enough_tokens 1 (tested_state (clock e) 1 j (rate_limiter s) t))) \<and>
            upstream e (executed s) req = Ok r \<and> executed s' = executed s + 1 \<and>
            (\<exists>en. map_of (memory_cache (cache_manager s'))
                     (generate_cache_key (md5_hexdigest e) k ''ytce'') = Some en \<and>
                  cached_value en = r))"
proof -
  let ?s0 = "s\<lparr>clock_reads := clock_reads s + 1\<rparr>"
  let ?s1 = "s\<lparr>clock_reads := clock_reads s + 1, orchestrated := orchestrated s + 1\<rparr>"
  have l: "lookup_cached e (Some k) s = (None, ?s0)"
    using assms by (rule lookup_cached_falsy)
  have mr: "make_request e req operation (Some k) s = request_pipeline e req operation (Some k) ?s1"
    by (simp add: make_request_def lookup_cached_orchestrated l)
  have q: "quota_after_reset e ?s1 = quota_after_reset e ?s0"
    by (simp add: quota_after_reset_def)
  have t: "reads_after_check e operation ?s1 = reads_after_check e operation ?s0"
    using check_quota_orchestrated [where e = e and operation = operation and s = ?s0
        and n = "orchestrated s + 1"]
    by (simp add: reads_after_check_def)
  have "quota_after_reset e ?s0 + operation_cost operation \<le> quota_limit s \<and>
            (\<exists>y. acquire (clock e) 1 (rate_limiter s) t = Some y \<and>
                 rate_limiter s' = fst (snd y)) \<and>
            (\<exists>i. enough_tokens 1 (tested_state (clock e) 1 i (rate_limiter s) t) \<and>
                 deducted 1 (tested_state (clock e) 1 i (rate_limiter s) t) (rate_limiter s') \<and>
                 (\<forall>j<i. \<not> enough_tokens 1 (tested_state (clock e) 1 j (rate_limiter s) t))) \<and>
            upstream e (executed s) req = Ok r \<and> executed s' = executed s + 1 \<and>
            (\<exists>en. map_of (memory_cache (cache_manager s'))
                     (generate_cache_key (md5_hexdigest e) k ''ytce'') = Some en \<and>
                  cached_value en = r)"
    if "make_request e req operation (Some k) s = Some (Inr r, s')"
      and "t = reads_after_check e operation ?s0" for r s' t
    using request_pipeline_success [OF that(1) [unfolded mr] assms(1,2)] q t that(2) by simp
  with mr show ?thesis by blast
qed

text \<open>
  Claim C10, witness: the cached empty dictionary is passed over and replaced, and the
  full buckets of the fresh limiter (100, 1000, 10) have one token less each.
\<close>

theorem falsy_cached_value_is_a_miss_witness:
  "\<exists>s'. make_request example_env (CaptionsList ''id,snippet'' ''v'') ''captions''
            (Some ''captions:v'') stale_empty
          = Some (Inr (PDict [(''items'', PList [PInt 0])]), s') \<and>
        executed s' = executed stale_empty + 1 \<and>
        minute_tokens (rate_limiter s') = 99 \<and> hour_tokens (rate_limiter s') = 999 \<and>
        burst_tokens (rate_limiter s') = 9"
proof -
  let ?req = "CaptionsList ''id,snippet'' ''v''"
  let ?en = "\<lparr>cached_value = PDict [], expires_at = 1000\<rparr>"
  let ?mr = "make_request example_env ?req ''captions'' (Some ''captions:v'') stale_empty"
  let ?rl = "\<lparr>config = default_config, minute_tokens = 99, minute_last_refill = 6,
      hour_tokens = 999, hour_last_refill = 6, burst_tokens = 9, burst_last_refill = 6,
      request_timestamps = [7]\<rparr>"
  define s1 where "s1 = stale_empty\<lparr>clock_reads := clock_reads stale_empty + 1,
      orchestrated := orchestrated stale_empty + 1\<rparr>"
  define s2 where "s2 = snd (check_quota example_env ''captions'' s1)"
  define s3 where "s3 = s2\<lparr>rate_limiter := ?rl, clock_reads := 9\<rparr>"
  define s4 where "s4 = snd (execute_request example_env ?req ''captions'' (Some ''captions:v'') s3)"
  have k: "''captions:v'' \<noteq> []" by simp
  have c: "enable_caching (settings example_env)" by code_simp
  have m: "map_of (memory_cache (cache_manager stale_empty))
           (generate_cache_key (md5_hexdigest example_env) ''captions:v'' ''ytce'') = Some ?en"
    by code_simp
  have x: "expires_at ?en > clock example_env (clock_reads stale_empty)" by code_simp
  have f: "\<not> truthy (cached_value ?en)" by simp
  note main = falsy_cached_value_is_a_miss [OF k c m x f, of ?req "''captions''"]
  from main have mr: "?mr = request_pipeline example_env ?req ''captions'' (Some ''captions:v'') s1"
    unfolding s1_def by blast
  have "fst (check_quota example_env ''captions'' s1) = Inr True"
    unfolding s1_def by code_simp
  then have q: "check_quota example_env ''captions'' s1 = (Inr True, s2)"
    by (simp add: s2_def prod_eq_iff)
  have a: "acquire (clock example_env) 1 (rate_limiter s2) (clock_reads s2) = Some (True, ?rl, 9)"
    unfolding s2_def s1_def by code_simp
  have "fst (execute_request example_env ?req ''captions'' (Some ''captions:v'') s3)
      = Inr (PDict [(''items'', PList [PInt 0])])"
    unfolding s3_def s2_def s1_def by code_simp
  then have e: "execute_request example_env ?req ''captions'' (Some ''captions:v'') s3
      = (Inr (PDict [(''items'', PList [PInt 0])]), s4)"
    by (simp add: s4_def prod_eq_iff)
  have r: "rate_limiter s4 = ?rl"
    unfolding s4_def s3_def s2_def s1_def by code_simp
  have s: "?mr = Some (Inr (PDict [(''items'', PList [PInt 0])]), s4)"
    by (simp add: mr request_pipeline_def q a e [unfolded s3_def])
  from main s have "executed s4 = executed stale_empty + 1" by blast
  with s r show ?thesis by simp
qed

section \<open>The size of the in-process cache\<close>



















end
